theory Spec2Isabelle
  imports Complex_Main "HOL-Library.Log_Nat"
begin

section \<open>Waveform window sizes\<close>

text \<open>
  Both clustering entry points turn a window given in milliseconds into a number of
  samples with Python's \<^verbatim>\<open>int(ms * fs / 1000.0)\<close>
  (\<^verbatim>\<open>circus.py\<close> lines 91-93 and 188-189, \<^verbatim>\<open>random_projections.py\<close>
  lines 71-72, 91-92 and 131-132). The operands are Python floats, that is, IEEE-754
  binary64 numbers: the product \<^verbatim>\<open>ms * fs\<close> is rounded to the nearest double, the
  quotient of that double by 1000 is rounded again, and \<^verbatim>\<open>int\<close> drops the fractional
  part of the result.

  A finite double is a rational number, and doubles are modelled as the rationals they
  denote. \<open>round_double\<close> is the rounding of an exact result to binary64 in the default
  mode (to nearest, a tie to the even significand): a number of binary exponent
  \<open>e = ilog2 x\<close> is rounded to a multiple of \<open>2 ^ (e - 52)\<close>, which gives 53
  significant bits, and below the smallest normal exponent \<open>-1022\<close> the spacing stays
  \<open>2 ^ -1074\<close> (subnormal numbers). The exponent \<open>ilog2 x\<close>, the integer \<open>e\<close>
  with \<open>2 ^ e \<le> |x| < 2 ^ (e + 1)\<close>, is read off the bit lengths of numerator and
  denominator.
\<close>

definition ilog2 :: "rat \<Rightarrow> int" where
  "ilog2 x =
     (let p = fst (quotient_of \<bar>x\<bar>); q = snd (quotient_of \<bar>x\<bar>);
          d = bitlen p - bitlen q
      in if \<bar>x\<bar> < 2 powi d then d - 1 else d)"

definition round_half_even :: "rat \<Rightarrow> int" where
  "round_half_even x =
     (let f = \<lfloor>x\<rfloor>; d = x - of_int f
      in if d < 1 / 2 then f else if 1 / 2 < d then f + 1 else if even f then f else f + 1)"

definition ulp :: "rat \<Rightarrow> rat" where
  "ulp x = 2 powi (max (ilog2 x) (- 1022) - 52)"

definition round_double :: "rat \<Rightarrow> rat" where
  "round_double x = (if x = 0 then 0 else of_int (round_half_even (x / ulp x)) * ulp x)"

text \<open>
  An operand of a float operation is a double already, or a number that Python
  converts to a double first (an \<^verbatim>\<open>int\<close> such as the window length \<^verbatim>\<open>2\<close>;
  likewise a decimal literal such as \<^verbatim>\<open>4.1\<close> denotes the nearest double).
  \<open>py_float\<close> is that conversion; it leaves a double as it is. The float operations
  \<^verbatim>\<open>x * y\<close> and \<^verbatim>\<open>x / y\<close> (for a divisor other than zero) give the exact result
  of the converted operands, rounded.
\<close>

definition py_float :: "rat \<Rightarrow> rat" where
  "py_float x = round_double x"

definition float_mul :: "rat \<Rightarrow> rat \<Rightarrow> rat" where
  "float_mul x y = round_double (py_float x * py_float y)"

definition float_div :: "rat \<Rightarrow> rat \<Rightarrow> rat" where
  "float_div x y = round_double (py_float x / py_float y)"

text \<open>
  The exponent range is bounded above in the machine: an exact result of magnitude
  \<open>2 ^ 1024 - 2 ^ 970\<close> or more rounds to infinity there, and \<^verbatim>\<open>int\<close> of an infinity
  raises \<^verbatim>\<open>OverflowError\<close>. \<open>round_double\<close> describes the machine on the results
  below that bound (\<open>double_finite\<close>), and the results on window sizes are stated for
  windows within it (\<open>window_in_range\<close>: both operands and their product).
  Infinities and NaN are no values of the model.
\<close>

definition double_finite :: "rat \<Rightarrow> bool" where
  "double_finite x = (\<bar>x\<bar> < 2 ^ 1024 - 2 ^ 970)"

definition window_in_range :: "rat \<Rightarrow> rat \<Rightarrow> bool" where
  "window_in_range ms fs =
     (double_finite ms \<and> double_finite fs \<and> double_finite (py_float ms * py_float fs))"

text \<open>\<^verbatim>\<open>int\<close> of a float truncates toward zero.\<close>

definition py_int :: "rat \<Rightarrow> int" where
  "py_int x = (if 0 \<le> x then \<lfloor>x\<rfloor> else \<lceil>x\<rceil>)"

text \<open>
  The window of one pass: \<^verbatim>\<open>nbefore\<close>, \<^verbatim>\<open>nafter\<close> and
  \<^verbatim>\<open>num_samples = nbefore + nafter\<close>. The arguments are \<^verbatim>\<open>ms_before\<close>,
  \<^verbatim>\<open>ms_after\<close> and \<^verbatim>\<open>fs\<close>; the divisor is written \<^verbatim>\<open>1000.0\<close> or
  \<^verbatim>\<open>1000\<close> in the source, the same double.
\<close>

definition window_samples :: "rat \<Rightarrow> rat \<Rightarrow> rat \<Rightarrow> int \<times> int \<times> int" where
  "window_samples before_ms after_ms fs =
     (let nbefore = py_int (float_div (float_mul before_ms fs) 1000);
          nafter = py_int (float_div (float_mul after_ms fs) 1000);
          num_samples = nbefore + nafter
      in (nbefore, nafter, num_samples))"

text \<open>
  The specification's formula, for comparison: \<^verbatim>\<open>round(ms * fs / 1000)\<close> with
  Python's \<^verbatim>\<open>round\<close>, which rounds a float to the nearest integer and a tie to the
  even neighbour.
\<close>

definition spec_round :: "rat \<Rightarrow> int" where
  "spec_round x = round_half_even x"

definition spec_window_samples :: "rat \<Rightarrow> rat \<Rightarrow> rat \<Rightarrow> int \<times> int \<times> int" where
  "spec_window_samples before_ms after_ms fs =
     (let nbefore = spec_round (float_div (float_mul before_ms fs) 1000);
          nafter = spec_round (float_div (float_mul after_ms fs) 1000)
      in (nbefore, nafter, nbefore + nafter))"

section \<open>Exceptions and data\<close>

text \<open>
  Python exceptions are values: a computation returns \<open>Inl e\<close> where the source
  raises and \<open>Inr v\<close> where it returns.
\<close>

datatype error = AssertionError | IndexError | ValueError | RuntimeError

text \<open>
  A detected peak (the structured array \<^verbatim>\<open>peaks\<close>) and a labelled spike
  (\<^verbatim>\<open>minimum_spike_dtype\<close>: sample, unit and segment index).
\<close>

record peak =
  sample_index :: int
  channel_index :: int
  segment_index :: int
  amplitude :: real

record spike =
  spike_sample_index :: int
  unit_index :: int
  spike_segment_index :: int

record recording =
  sampling_frequency :: rat
  num_channels :: nat

type_synonym feature = "real list"

type_synonym waveform = "real list list"

text \<open>
  The \<^verbatim>\<open>Templates\<close> container, as the three parallel arrays the entry points read:
  one waveform (samples by channels), one unit id and one channel mask per unit.
\<close>

record templates =
  templates_array :: "waveform list"
  unit_ids :: "int list"
  sparsity_mask :: "bool list list"

text \<open>
  The entries of the \<^verbatim>\<open>params\<close> dictionary that the modelled code reads. The
  window lengths in milliseconds, like the sampling frequency of a recording, are
  doubles, given as the rationals they denote.
\<close>

record params =
  ms_before :: rat
  ms_after :: rat
  waveforms_ms_before :: rat
  waveforms_ms_after :: rat
  random_seed :: int
  nb_projections :: nat
  noise_threshold :: real
  noise_levels :: "real list option"

section \<open>NumPy operations used by the entry points\<close>

text \<open>\<^verbatim>\<open>np.unique\<close>: the sorted distinct values.\<close>

definition np_unique :: "int list \<Rightarrow> int list" where
  "np_unique xs = sort (remdups xs)"

text \<open>\<^verbatim>\<open>np.sum(mask)\<close> of a boolean array.\<close>

definition count_true :: "bool list \<Rightarrow> nat" where
  "count_true msk = length (filter (\<lambda>b. b) msk)"

text \<open>
  \<^verbatim>\<open>a[mask]\<close> with a boolean mask: the entries where the mask is true. NumPy raises
  IndexError when the mask and the array differ in length.
\<close>

definition take_masked :: "bool list \<Rightarrow> 'a list \<Rightarrow> 'a list" where
  "take_masked msk xs = map snd (filter fst (zip msk xs))"

definition bool_index :: "'a list \<Rightarrow> bool list \<Rightarrow> error + 'a list" where
  "bool_index xs msk =
     (if length msk = length xs then Inr (take_masked msk xs) else Inl IndexError)"

text \<open>
  \<^verbatim>\<open>a[mask] = v\<close> for a scalar \<open>v\<close>, and \<^verbatim>\<open>a[mask] = vals\<close> for an array:
  the values go, in order, to the positions where the mask is true. NumPy accepts as
  many values as the mask has true entries, or a single value (broadcast), and raises
  ValueError otherwise.
\<close>

definition fill_masked :: "bool list \<Rightarrow> 'a \<Rightarrow> 'a list \<Rightarrow> 'a list" where
  "fill_masked msk v xs = map (\<lambda>(b, x). if b then v else x) (zip msk xs)"

fun scatter :: "bool list \<Rightarrow> 'a list \<Rightarrow> 'a list \<Rightarrow> 'a list" where
  "scatter (True # msk) (v # vals) (x # xs) = v # scatter msk vals xs"
| "scatter (False # msk) vals (x # xs) = x # scatter msk vals xs"
| "scatter msk vals xs = xs"

definition assign_masked :: "bool list \<Rightarrow> 'a list \<Rightarrow> 'a list \<Rightarrow> error + 'a list" where
  "assign_masked msk vals xs =
     (if length msk \<noteq> length xs then Inl IndexError
      else if length vals = count_true msk then Inr (scatter msk vals xs)
      else if length vals = 1 then Inr (fill_masked msk (hd vals) xs)
      else Inl ValueError)"

text \<open>\<^verbatim>\<open>np.where(mask)[0]\<close>: the positions of the true entries.\<close>

definition np_where :: "bool list \<Rightarrow> int list" where
  "np_where msk = map int (filter (\<lambda>i. msk ! i) [0..<length msk])"

definition isin :: "int list \<Rightarrow> int list \<Rightarrow> bool list" where
  "isin xs test = map (\<lambda>x. x \<in> set test) xs"

text \<open>\<^verbatim>\<open>np.argmax\<close>: the first position of the maximum; ValueError on an empty row.\<close>

fun argmax_from :: "nat \<Rightarrow> real \<Rightarrow> nat \<Rightarrow> real list \<Rightarrow> nat" where
  "argmax_from best bv i [] = best"
| "argmax_from best bv i (x # xs) =
     (if bv < x then argmax_from i x (Suc i) xs else argmax_from best bv (Suc i) xs)"

definition np_argmax :: "real list \<Rightarrow> error + nat" where
  "np_argmax xs = (case xs of [] \<Rightarrow> Inl ValueError | x # rest \<Rightarrow> Inr (argmax_from 0 x 1 rest))"

text \<open>Python indexing \<^verbatim>\<open>xs[i]\<close>: a negative index counts from the end.\<close>

definition py_index :: "'a list \<Rightarrow> int \<Rightarrow> error + 'a" where
  "py_index xs i =
     (if 0 \<le> i \<and> i < int (length xs) then Inr (xs ! nat i)
      else if i < 0 \<and> - int (length xs) \<le> i then Inr (xs ! nat (int (length xs) + i))
      else Inl IndexError)"

fun collect :: "(error + 'a) list \<Rightarrow> error + 'a list" where
  "collect [] = Inr []"
| "collect (r # rs) =
     (case r of Inl e \<Rightarrow> Inl e
      | Inr x \<Rightarrow> (case collect rs of Inl e \<Rightarrow> Inl e | Inr xs \<Rightarrow> Inr (x # xs)))"

section \<open>External collaborators and the process-wide random generator\<close>

text \<open>
  The entry points call code that lies outside the two modules (scikit-learn, hdbscan,
  the node pipeline, template estimation, the noise estimator). Each such call
  is a field of the record \<open>externals\<close>. A call that can raise, or that can draw
  from NumPy's process-wide generator, is a \<^emph>\<open>stage\<close>: it takes the state \<open>'g\<close>
  of that generator and returns the new state with its result or its exception.

  \<^item> \<open>HAVE_HDBSCAN\<close>: whether the import of hdbscan succeeded.
  \<^item> \<open>np_random_seed s\<close>: the state of the process-wide generator after
    \<^verbatim>\<open>np.random.seed(s)\<close>.
  \<^item> \<open>RandomState_normal s k\<close>: the \<open>k\<close>-th standard normal draw of the private
    generator \<^verbatim>\<open>np.random.RandomState(s)\<close>.
  \<^item> \<open>extract_svd_features\<close>: \<^verbatim>\<open>circus.py\<close> lines 105-156 (peak subsample,
    first TruncatedSVD, node pipeline), one feature row per peak.
  \<^item> \<open>extract_projection_features\<close>: \<^verbatim>\<open>random_projections.py\<close> lines 76-115
    (node pipeline with the given projection matrix).
  \<^item> \<open>fit_transform\<close>: the per-channel TruncatedSVD of \<^verbatim>\<open>circus.py\<close> line 164.
  \<^item> \<open>hdbscan\<close>: \<^verbatim>\<open>hdbscan.hdbscan(data, ...)[0]\<close>, the label of every row.
  \<^item> \<open>estimate_templates\<close>: the mean waveform of every unit id.
  \<^item> \<open>get_noise_levels\<close>: one noise level per channel.
  \<^item> \<open>compute_sparsity\<close>: the channel mask of one template, from the noise levels.
  \<^item> \<open>near_duplicates\<close>: the outcome of the matching pass of the deduplication
    engine, as pairs (discarded unit, surviving unit).
\<close>

type_synonym ('g, 'a) stage = "'g \<Rightarrow> 'g \<times> (error + 'a)"

record 'g externals =
  HAVE_HDBSCAN :: bool
  np_random_seed :: "int \<Rightarrow> 'g"
  RandomState_normal :: "int \<Rightarrow> nat \<Rightarrow> real"
  extract_svd_features :: "recording \<Rightarrow> peak list \<Rightarrow> ('g, feature list) stage"
  extract_projection_features :: "recording \<Rightarrow> peak list \<Rightarrow> real list list \<Rightarrow> ('g, feature list) stage"
  fit_transform :: "feature list \<Rightarrow> ('g, feature list) stage"
  hdbscan :: "feature list \<Rightarrow> ('g, int list) stage"
  estimate_templates :: "recording \<Rightarrow> spike list \<Rightarrow> int list \<Rightarrow> int \<Rightarrow> int \<Rightarrow> ('g, int \<Rightarrow> waveform) stage"
  get_noise_levels :: "recording \<Rightarrow> ('g, real list) stage"
  compute_sparsity :: "real list \<Rightarrow> waveform \<Rightarrow> bool list"
  near_duplicates :: "templates \<Rightarrow> (int \<times> int) list"

text \<open>Sequencing of stages: an exception ends the computation, the state is kept.\<close>

definition stage_bind :: "('g, 'a) stage \<Rightarrow> ('a \<Rightarrow> ('g, 'b) stage) \<Rightarrow> ('g, 'b) stage" where
  "stage_bind m f g = (case m g of (g', Inl e) \<Rightarrow> (g', Inl e) | (g', Inr x) \<Rightarrow> f x g')"

definition stage_of :: "error + 'a \<Rightarrow> ('g, 'a) stage" where
  "stage_of r g = (g, r)"

section \<open>Per-channel clustering of the learned-subspace path\<close>

text \<open>
  \<^verbatim>\<open>circus.py\<close> lines 158-175. \<^verbatim>\<open>local_labels[valid_clusters] += nb_clusters\<close>
  shifts every label above \<open>-1\<close> by the running offset.
\<close>

definition offset_valid :: "int \<Rightarrow> int list \<Rightarrow> int list" where
  "offset_valid nb_clusters local_labels =
     map (\<lambda>l. if l > -1 then l + nb_clusters else l) local_labels"

text \<open>
  One iteration of the loop, for channel \<open>c\<close>. The second TruncatedSVD stands outside
  the \<^verbatim>\<open>try\<close>: its exception leaves the loop. The exception of hdbscan is caught and
  replaced by \<^verbatim>\<open>np.zeros(len(hdbscan_data))\<close>.
\<close>

definition circus_channel_step ::
  "'g externals \<Rightarrow> peak list \<Rightarrow> feature list \<Rightarrow> int \<Rightarrow> int list \<times> int
     \<Rightarrow> ('g, int list \<times> int) stage" where
  "circus_channel_step ext peaks all_pc_data c st g =
     (let peak_labels = fst st; nb_clusters = snd st;
          msk = map (\<lambda>p. channel_index p = c) peaks
      in case bool_index all_pc_data msk of
           Inl e \<Rightarrow> (g, Inl e)
         | Inr sub_data \<Rightarrow>
             (case fit_transform ext sub_data g of
                (g1, Inl e) \<Rightarrow> (g1, Inl e)
              | (g1, Inr hdbscan_data) \<Rightarrow>
                  (let clustering = hdbscan ext hdbscan_data g1;
                       g2 = fst clustering;
                       local_labels =
                         (case snd clustering of
                            Inr ls \<Rightarrow> ls
                          | Inl e \<Rightarrow> replicate (length hdbscan_data) 0);
                       valid_clusters = map (\<lambda>l. l > -1) local_labels
                   in if count_true valid_clusters > 0
                      then
                        (let shifted = offset_valid nb_clusters local_labels
                         in case assign_masked msk shifted peak_labels of
                              Inl e \<Rightarrow> (g2, Inl e)
                            | Inr peak_labels' \<Rightarrow>
                                (g2, Inr (peak_labels',
                                   nb_clusters
                                     + int (length (np_unique (take_masked valid_clusters shifted))))))
                      else (g2, Inr (peak_labels, nb_clusters)))))"

fun circus_cluster_loop ::
  "'g externals \<Rightarrow> peak list \<Rightarrow> feature list \<Rightarrow> int list \<Rightarrow> int list \<times> int
     \<Rightarrow> ('g, int list \<times> int) stage" where
  "circus_cluster_loop ext peaks all_pc_data [] st g = (g, Inr st)"
| "circus_cluster_loop ext peaks all_pc_data (c # cs) st g =
     (case circus_channel_step ext peaks all_pc_data c st g of
        (g', Inl e) \<Rightarrow> (g', Inl e)
      | (g', Inr st') \<Rightarrow> circus_cluster_loop ext peaks all_pc_data cs st' g')"

text \<open>
  The whole loop: labels start at \<open>-1\<close>, the offset at \<open>0\<close>, and the channels are
  \<^verbatim>\<open>np.unique(peaks["channel_index"])\<close>.
\<close>

definition circus_clustering ::
  "'g externals \<Rightarrow> peak list \<Rightarrow> feature list \<Rightarrow> ('g, int list \<times> int) stage" where
  "circus_clustering ext peaks all_pc_data =
     circus_cluster_loop ext peaks all_pc_data (np_unique (map channel_index peaks))
       (replicate (length peaks) (-1), 0)"

text \<open>
  The contract of \<^verbatim>\<open>hdbscan.hdbscan\<close> that the renumbering relies on: every label
  is at least \<open>-1\<close>, and the clusters of one call are numbered consecutively from
  \<open>0\<close> (every label is below the number of distinct clusters).
\<close>

definition dense_labels :: "int list \<Rightarrow> bool" where
  "dense_labels ls =
     list_all (\<lambda>l. -1 \<le> l \<and> l < int (length (np_unique (filter (\<lambda>l. l > -1) ls)))) ls"

definition hdbscan_contract :: "'g externals \<Rightarrow> bool" where
  "hdbscan_contract ext = (\<forall>dat g ls. snd (hdbscan ext dat g) = Inr ls \<longrightarrow> dense_labels ls)"

text \<open>
  The rows of one channel, and the shape contract of the two per-channel calls: the
  TruncatedSVD returns one row per input row, hdbscan one label per row.
\<close>

definition channel_data :: "peak list \<Rightarrow> feature list \<Rightarrow> int \<Rightarrow> feature list" where
  "channel_data peaks all_pc_data c = take_masked (map (\<lambda>p. channel_index p = c) peaks) all_pc_data"

definition svd_returns :: "'g externals \<Rightarrow> bool" where
  "svd_returns ext =
     (\<forall>dat g. \<exists>out. snd (fit_transform ext dat g) = Inr out \<and> length out = length dat)"

definition hdbscan_rows :: "'g externals \<Rightarrow> bool" where
  "hdbscan_rows ext = (\<forall>dat g ls. snd (hdbscan ext dat g) = Inr ls \<longrightarrow> length ls = length dat)"

definition hdbscan_raises_on :: "'g externals \<Rightarrow> feature list \<Rightarrow> bool" where
  "hdbscan_raises_on ext sub_data =
     (\<forall>g out g'. snd (fit_transform ext sub_data g) = Inr out
        \<longrightarrow> (\<exists>e. snd (hdbscan ext out g') = Inl e))"

section \<open>Templates, sparsity and pruning\<close>

text \<open>Lines 180-186 of \<^verbatim>\<open>circus.py\<close> (123-129 of \<^verbatim>\<open>random_projections.py\<close>).\<close>

definition labelled_spikes :: "peak list \<Rightarrow> int list \<Rightarrow> error + spike list" where
  "labelled_spikes peaks peak_labels =
     (let msk = map (\<lambda>l. l > -1) peak_labels
      in case bool_index peaks msk of
           Inl e \<Rightarrow> Inl e
         | Inr sel \<Rightarrow>
             Inr (map (\<lambda>(p, l). \<lparr>spike_sample_index = sample_index p, unit_index = l,
                                  spike_segment_index = segment_index p\<rparr>)
                    (zip sel (take_masked msk peak_labels))))"

definition arange_units :: "spike list \<Rightarrow> int list" where
  "arange_units spikes = map int [0..<length (np_unique (map unit_index spikes))]"

text \<open>
  \<^verbatim>\<open>Templates(...)\<close> with \<^verbatim>\<open>sparsity_mask=None\<close> is dense: every channel is
  active. \<^verbatim>\<open>to_sparse\<close> installs the computed masks.
\<close>

definition dense_templates :: "recording \<Rightarrow> waveform list \<Rightarrow> int list \<Rightarrow> templates" where
  "dense_templates rec arr uids =
     \<lparr>templates_array = arr, unit_ids = uids,
      sparsity_mask = map (\<lambda>u. replicate (num_channels rec) True) uids\<rparr>"

definition to_sparse :: "templates \<Rightarrow> bool list list \<Rightarrow> templates" where
  "to_sparse t sparsity = t\<lparr>sparsity_mask := sparsity\<rparr>"

text \<open>
  Modelled from the spec: \<^verbatim>\<open>remove_empty_templates\<close> (module
  \<^verbatim>\<open>sortingcomponents.tools\<close>) is not among the source files. Section 4.5: "any unit
  whose resulting mask has zero active channels ... is removed from the unit set".
\<close>

definition remove_empty_templates :: "templates \<Rightarrow> templates" where
  "remove_empty_templates t =
     (let not_empty = map (\<lambda>m. count_true m > 0) (sparsity_mask t)
      in \<lparr>templates_array = take_masked not_empty (templates_array t),
          unit_ids = take_masked not_empty (unit_ids t),
          sparsity_mask = take_masked not_empty (sparsity_mask t)\<rparr>)"

text \<open>
  Pruning in \<^verbatim>\<open>circus.py\<close>, lines 200-202: the templates are narrowed and the empty
  ones dropped; \<^verbatim>\<open>peak_labels\<close> is not touched.
\<close>

definition circus_prune :: "templates \<Rightarrow> bool list list \<Rightarrow> int list \<Rightarrow> templates \<times> int list" where
  "circus_prune t sparsity peak_labels =
     (remove_empty_templates (to_sparse t sparsity), peak_labels)"

text \<open>
  Pruning in \<^verbatim>\<open>random_projections.py\<close>. Lines 148-151: a template is valid when, on
  its best channel at sample \<^verbatim>\<open>nbefore\<close>, the absolute amplitude over the noise level
  exceeds \<^verbatim>\<open>noise_threshold\<close>. A division by a zero noise level gives \<^verbatim>\<open>inf\<close> (or
  \<^verbatim>\<open>nan\<close> for \<open>0/0\<close>) in NumPy; the comparison is written out accordingly.
\<close>

definition snr_above :: "real \<Rightarrow> real \<Rightarrow> real \<Rightarrow> bool" where
  "snr_above a n thr = (if n = 0 then 0 < a else thr < a / n)"

text \<open>
  \<^verbatim>\<open>templates_array[:, nbefore, :]\<close>: the sample axis has \<open>nbefore + nafter\<close>
  entries (the shape \<^verbatim>\<open>estimate_templates\<close> returns), so the index must lie within it.
\<close>

definition sample_axis_ok :: "int \<Rightarrow> int \<Rightarrow> bool" where
  "sample_axis_ok nbefore nafter = (- (nbefore + nafter) \<le> nbefore \<and> nbefore < nbefore + nafter)"

definition peak_rows :: "int \<Rightarrow> int \<Rightarrow> waveform list \<Rightarrow> error + real list list" where
  "peak_rows nbefore nafter arr =
     (if sample_axis_ok nbefore nafter then collect (map (\<lambda>w. py_index w nbefore) arr)
      else Inl IndexError)"

text \<open>
  One entry of \<^verbatim>\<open>(peak_snrs / noise_levels)[arange, best_channels] > noise_threshold\<close>.
  The division broadcasts a noise array of the row's length or of length one; a
  one-channel row is itself broadcast over the noise array.
\<close>

definition best_snr_valid :: "real list \<Rightarrow> real \<Rightarrow> real list \<Rightarrow> nat \<Rightarrow> error + bool" where
  "best_snr_valid noise thr row best =
     (if length noise = length row \<or> (length row = 1 \<and> noise \<noteq> [])
      then Inr (snr_above (row ! best) (noise ! best) thr)
      else if length noise = 1 then Inr (snr_above (row ! best) (noise ! 0) thr)
      else if length row = 1 then Inl IndexError
      else Inl ValueError)"

definition valid_templates_of ::
  "int \<Rightarrow> int \<Rightarrow> real list \<Rightarrow> real \<Rightarrow> waveform list \<Rightarrow> error + bool list" where
  "valid_templates_of nbefore nafter noise thr arr =
     (case peak_rows nbefore nafter arr of
        Inl e \<Rightarrow> Inl e
      | Inr rows \<Rightarrow>
          (let peak_snrs = map (map abs) rows
           in case collect (map np_argmax peak_snrs) of
                Inl e \<Rightarrow> Inl e
              | Inr best_channels \<Rightarrow>
                  collect (map (\<lambda>(row, best). best_snr_valid noise thr row best)
                             (zip peak_snrs best_channels))))"

text \<open>
  Lines 169-173: the labels found among the positions of the empty templates, then
  among the positions of the invalid templates, are set to \<open>-1\<close>. The array
  \<^verbatim>\<open>empty_templates\<close> has one entry per \<^emph>\<open>valid\<close> template.
\<close>

definition rp_reset_labels :: "bool list \<Rightarrow> bool list \<Rightarrow> int list \<Rightarrow> int list" where
  "rp_reset_labels valid_templates empty_templates peak_labels =
     (let msk1 = isin peak_labels (np_where empty_templates);
          peak_labels1 = fill_masked msk1 (-1) peak_labels;
          msk2 = isin peak_labels1 (np_where (map Not valid_templates))
      in fill_masked msk2 (-1) peak_labels1)"

text \<open>Lines 153-173 together, from the validity flags and the sparsity rule.\<close>

definition rp_prune ::
  "recording \<Rightarrow> (waveform \<Rightarrow> bool list) \<Rightarrow> waveform list \<Rightarrow> int list \<Rightarrow> bool list \<Rightarrow> int list
     \<Rightarrow> templates \<times> int list" where
  "rp_prune rec sparsity_rule arr uids valid_templates peak_labels =
     (let t = dense_templates rec (take_masked valid_templates arr)
                (take_masked valid_templates uids);
          sparse = to_sparse t (map sparsity_rule (templates_array t));
          empty_templates = map (\<lambda>m. count_true m = 0) (sparsity_mask sparse)
      in (remove_empty_templates sparse,
          rp_reset_labels valid_templates empty_templates peak_labels))"

section \<open>Matching-based deduplication\<close>

text \<open>
  Modelled from the spec: \<^verbatim>\<open>remove_duplicates_via_matching\<close> (module
  \<^verbatim>\<open>clustering_tools\<close>) is not among the source files; only its two call sites are.
  Section 4.6: the matching pass is a black box (here the parameter \<open>nd\<close>, giving the
  pairs of a discarded unit and the unit that survives it); "any unit pair whose
  resulting spike trains are near-duplicates ... is merged, keeping one representative
  template and redirecting peak labels of the discarded unit to the surviving one";
  the output is "labels = sorted unique surviving unit indices; peak_labels =
  original-length array ... with merged/removed assignments set to -1 where no
  survivor could be matched".
\<close>

definition remove_duplicates_via_matching ::
  "(templates \<Rightarrow> (int \<times> int) list) \<Rightarrow> templates \<Rightarrow> int list \<Rightarrow> int list \<times> int list" where
  "remove_duplicates_via_matching nd t peak_labels =
     (let merges = nd t;
          discarded = map fst merges;
          surviving = filter (\<lambda>u. u \<notin> set discarded) (unit_ids t);
          redirect = (\<lambda>l. case map_of merges l of Some s \<Rightarrow> s | None \<Rightarrow> l);
          new_labels =
            map (\<lambda>l. if l = -1 then -1
                      else if redirect l \<in> set surviving then redirect l else -1) peak_labels
      in (np_unique surviving, new_labels))"

section \<open>Random projections\<close>

text \<open>
  \<^verbatim>\<open>random_projections.py\<close> lines 88-89. \<^verbatim>\<open>rng.normal(loc, scale, size=(r, c))\<close>
  fills an \<open>r\<close> by \<open>c\<close> matrix with \<open>loc + scale * z\<close>, where \<open>z\<close> runs through the
  standard normal draws of the generator.
\<close>

definition rng_normal :: "(nat \<Rightarrow> real) \<Rightarrow> real \<Rightarrow> real \<Rightarrow> nat \<times> nat \<Rightarrow> real list list" where
  "rng_normal z loc scale shape =
     map (\<lambda>i. map (\<lambda>j. loc + scale * z (i * snd shape + j)) [0..<snd shape]) [0..<fst shape]"

definition num_projections :: "recording \<Rightarrow> params \<Rightarrow> nat" where
  "num_projections rec prm = min (num_channels rec) (nb_projections prm)"

definition projection_scale :: "recording \<Rightarrow> real" where
  "projection_scale rec = 1 / sqrt (real (num_channels rec))"

definition projections :: "(nat \<Rightarrow> real) \<Rightarrow> recording \<Rightarrow> params \<Rightarrow> real list list" where
  "projections rng rec prm =
     rng_normal rng 0 (projection_scale rec) (num_channels rec, num_projections rec prm)"

text \<open>
  Modelled from the spec: the node \<^verbatim>\<open>RandomProjectionsFeature\<close> is not among the source
  files. Section 4.2: "compute a scalar feature (e.g. energy norm or peak-to-peak) per
  projected channel, producing one feature vector per peak". The per-channel scalars of
  one peak are \<open>chan_feature\<close>; entry \<open>j\<close> of the feature vector is their projection on
  column \<open>j\<close> of the matrix.
\<close>

definition random_projections_feature :: "nat \<Rightarrow> real list list \<Rightarrow> real list \<Rightarrow> feature" where
  "random_projections_feature ncols proj chan_feature =
     map (\<lambda>j. sum_list (map (\<lambda>(v, row). v * row ! j) (zip chan_feature proj))) [0..<ncols]"

section \<open>The two entry points\<close>

text \<open>
  \<^verbatim>\<open>if params["noise_levels"] is None: params["noise_levels"] = get_noise_levels(...)\<close>
\<close>

definition resolve_noise_levels :: "'g externals \<Rightarrow> params \<Rightarrow> recording \<Rightarrow> ('g, real list) stage" where
  "resolve_noise_levels ext prm rec =
     (case noise_levels prm of
        None \<Rightarrow> get_noise_levels ext rec
      | Some nl \<Rightarrow> stage_of (Inr nl))"

text \<open>
  \<^verbatim>\<open>CircusClustering.main_function\<close>. After the assertion and the window
  computation (taken within the range of the doubles, where \<^verbatim>\<open>int\<close> does not
  raise), line 95 reseeds the process-wide generator of NumPy; every later stage
  starts from that state. \<open>circus_templates\<close> is lines 180-202: spikes, unit ids,
  templates, noise levels, sparsity and pruning. Folder handling (and the draw from
  Python's own \<^verbatim>\<open>random\<close> module that names the folder), printing and the job
  arguments are left out.
\<close>

definition circus_templates ::
  "'g externals \<Rightarrow> params \<Rightarrow> recording \<Rightarrow> peak list \<Rightarrow> int list \<Rightarrow> ('g, templates \<times> int list) stage" where
  "circus_templates ext prm rec peaks peak_labels =
     stage_bind (stage_of (labelled_spikes peaks peak_labels)) (\<lambda>spikes.
       let unit_ids = arange_units spikes;
           win = window_samples (waveforms_ms_before prm) (waveforms_ms_after prm)
                   (sampling_frequency rec);
           nbefore = fst win; nafter = fst (snd win)
       in stage_bind (estimate_templates ext rec spikes unit_ids nbefore nafter) (\<lambda>est.
            let t = dense_templates rec (map est unit_ids) unit_ids
            in stage_bind (resolve_noise_levels ext prm rec)
                 (\<lambda>nl. stage_of
                    (Inr (circus_prune t (map (compute_sparsity ext nl) (templates_array t))
                            peak_labels)))))"

definition circus_main ::
  "'g externals \<Rightarrow> params \<Rightarrow> recording \<Rightarrow> peak list \<Rightarrow> ('g, int list \<times> int list) stage" where
  "circus_main ext prm rec peaks g =
     (if \<not> HAVE_HDBSCAN ext then (g, Inl AssertionError)
      else
        let win = window_samples (ms_before prm) (ms_after prm) (sampling_frequency rec);
            num_samples = snd (snd win);
            g0 = np_random_seed ext (random_seed prm)
        in stage_bind (extract_svd_features ext rec peaks) (\<lambda>all_pc_data.
             stage_bind (circus_clustering ext peaks all_pc_data) (\<lambda>st.
               stage_bind (circus_templates ext prm rec peaks (fst st)) (\<lambda>pruned.
                 stage_of
                   (Inr (remove_duplicates_via_matching (near_duplicates ext)
                           (fst pruned) (snd pruned)))))) g0)"

text \<open>
  \<^verbatim>\<open>RandomProjectionClustering.main_function\<close>. The generator of line 74 is a private
  \<^verbatim>\<open>RandomState\<close>: it feeds the projection matrix only, and the function itself never
  writes the process-wide generator. hdbscan runs once, outside any \<^verbatim>\<open>try\<close>.
  \<open>rp_templates\<close> is lines 123-173.
\<close>

definition rp_templates ::
  "'g externals \<Rightarrow> params \<Rightarrow> recording \<Rightarrow> peak list \<Rightarrow> int list \<Rightarrow> ('g, templates \<times> int list) stage" where
  "rp_templates ext prm rec peaks peak_labels =
     stage_bind (stage_of (labelled_spikes peaks peak_labels)) (\<lambda>spikes.
       let unit_ids = arange_units spikes;
           win = window_samples (waveforms_ms_before prm) (waveforms_ms_after prm)
                   (sampling_frequency rec);
           nbefore = fst win; nafter = fst (snd win)
       in stage_bind (resolve_noise_levels ext prm rec)
            (\<lambda>nl. stage_bind (estimate_templates ext rec spikes unit_ids nbefore nafter) (\<lambda>est.
               let arr = map est unit_ids
               in stage_bind
                    (stage_of (valid_templates_of nbefore nafter nl (noise_threshold prm) arr))
                    (\<lambda>valid_templates. stage_of
                       (Inr (rp_prune rec (compute_sparsity ext nl) arr unit_ids valid_templates
                               peak_labels))))))"

definition rp_main ::
  "'g externals \<Rightarrow> params \<Rightarrow> recording \<Rightarrow> peak list \<Rightarrow> ('g, int list \<times> int list) stage" where
  "rp_main ext prm rec peaks g =
     (if \<not> HAVE_HDBSCAN ext then (g, Inl AssertionError)
      else
        stage_bind
          (extract_projection_features ext rec peaks
             (projections (RandomState_normal ext (random_seed prm)) rec prm))
          (\<lambda>hdbscan_data.
             stage_bind (hdbscan ext hdbscan_data) (\<lambda>peak_labels.
               stage_bind (rp_templates ext prm rec peaks peak_labels) (\<lambda>pruned.
                 stage_of
                   (Inr (remove_duplicates_via_matching (near_duplicates ext)
                           (fst pruned) (snd pruned)))))) g)"

text \<open>
  A stage is \<^emph>\<open>generator-free\<close> when it leaves the process-wide generator as it found
  it; \<open>generator_free ext\<close> says so of every stage of \<open>ext\<close>.
\<close>

definition generator_free :: "'g externals \<Rightarrow> bool" where
  "generator_free ext =
     ((\<forall>r p g. fst (extract_svd_features ext r p g) = g) \<and>
      (\<forall>r p m g. fst (extract_projection_features ext r p m g) = g) \<and>
      (\<forall>d g. fst (fit_transform ext d g) = g) \<and>
      (\<forall>d g. fst (hdbscan ext d g) = g) \<and>
      (\<forall>r s u a b g. fst (estimate_templates ext r s u a b g) = g) \<and>
      (\<forall>r g. fst (get_noise_levels ext r g) = g))"

text \<open>
  A stage \<^emph>\<open>keeps the generator\<close> when it returns the state it was given, and
  \<^emph>\<open>returns normally\<close> when it raises from no state.
\<close>

definition keeps_generator :: "('g, 'a) stage \<Rightarrow> bool" where
  "keeps_generator m = (\<forall>g. fst (m g) = g)"

definition returns_normally :: "('g, 'a) stage \<Rightarrow> bool" where
  "returns_normally m = (\<forall>g. \<exists>x. snd (m g) = Inr x)"



text \<open>
  What the stages must do on an empty peak array for an entry point to get through:
  each one returns normally, and hdbscan returns no label for the features of no peak.
  For the random-projection path the template window must also hold the sample
  \<^verbatim>\<open>nbefore\<close> that line 148 reads.
\<close>

definition circus_accepts_empty :: "'g externals \<Rightarrow> params \<Rightarrow> recording \<Rightarrow> bool" where
  "circus_accepts_empty ext prm rec =
     (HAVE_HDBSCAN ext \<and>
      returns_normally (extract_svd_features ext rec []) \<and>
      (\<forall>a b. returns_normally (estimate_templates ext rec [] [] a b)) \<and>
      returns_normally (resolve_noise_levels ext prm rec))"

definition rp_accepts_empty :: "'g externals \<Rightarrow> params \<Rightarrow> recording \<Rightarrow> bool" where
  "rp_accepts_empty ext prm rec =
     (HAVE_HDBSCAN ext \<and>
      (\<forall>m g. \<exists>d. snd (extract_projection_features ext rec [] m g) = Inr d
                 \<and> (\<forall>g'. snd (hdbscan ext d g') = Inr [])) \<and>
      (\<forall>a b. returns_normally (estimate_templates ext rec [] [] a b)) \<and>
      returns_normally (resolve_noise_levels ext prm rec) \<and>
      sample_axis_ok
        (fst (window_samples (waveforms_ms_before prm) (waveforms_ms_after prm)
                (sampling_frequency rec)))
        (fst (snd (window_samples (waveforms_ms_before prm) (waveforms_ms_after prm)
                (sampling_frequency rec)))))"

section \<open>Concrete inputs\<close>

text \<open>
  A two-channel recording at 1 kHz with windows of one millisecond (one sample before
  and one after the peak), three peaks on channels 0, 1, 0, and their feature rows.
\<close>

definition example_recording :: recording where
  "example_recording = \<lparr>sampling_frequency = 1000, num_channels = 2\<rparr>"

definition example_params :: params where
  "example_params =
     \<lparr>ms_before = 1, ms_after = 1, waveforms_ms_before = 1, waveforms_ms_after = 1,
      random_seed = 42, nb_projections = 10, noise_threshold = 4, noise_levels = None\<rparr>"

definition example_peak :: "int \<Rightarrow> int \<Rightarrow> peak" where
  "example_peak s c = \<lparr>sample_index = s, channel_index = c, segment_index = 0, amplitude = - 50\<rparr>"

definition example_peaks :: "peak list" where
  "example_peaks = [example_peak 10 0, example_peak 20 1, example_peak 30 0]"

definition example_features :: "feature list" where
  "example_features = [[- 50], [- 50], [- 50]]"

definition five_peaks :: "peak list" where
  "five_peaks = [example_peak 10 0, example_peak 20 0, example_peak 30 0, example_peak 40 0,
                 example_peak 50 0]"

definition four_channel_recording :: recording where
  "four_channel_recording = \<lparr>sampling_frequency = 30000, num_channels = 4\<rparr>"

text \<open>A stream of draws to fill a projection matrix with: draw number \<open>k\<close> is \<open>k\<close>.\<close>

definition example_draws :: "nat \<Rightarrow> real" where
  "example_draws k = real k"

text \<open>
  A sparsity rule in the style of the threshold methods: a channel is active when some
  sample of the template reaches \<open>thr\<close> times the noise level of the channel.
\<close>

definition amplitude_sparsity :: "real \<Rightarrow> real list \<Rightarrow> waveform \<Rightarrow> bool list" where
  "amplitude_sparsity thr nl w =
     map (\<lambda>c. list_ex (\<lambda>row. thr * nl ! c \<le> \<bar>row ! c\<bar>) w) [0..<length nl]"

text \<open>
  Collaborators that always succeed and never touch the process-wide generator (its
  state is a number, and seeding with \<open>s\<close> sets it to \<open>|s|\<close>): the features of a
  peak are its amplitude, the per-channel SVD is the identity, hdbscan puts all rows in
  one cluster, every unit has the same two-sample template, and matching finds no
  duplicate.
\<close>

definition example_externals :: "nat externals" where
  "example_externals =
     \<lparr>HAVE_HDBSCAN = True,
      np_random_seed = (\<lambda>s. nat \<bar>s\<bar>),
      RandomState_normal = (\<lambda>s k. real k),
      extract_svd_features = (\<lambda>r p g. (g, Inr (map (\<lambda>q. [amplitude q]) p))),
      extract_projection_features = (\<lambda>r p m g. (g, Inr (map (\<lambda>q. [amplitude q]) p))),
      fit_transform = (\<lambda>d g. (g, Inr d)),
      hdbscan = (\<lambda>d g. (g, Inr (replicate (length d) 0))),
      estimate_templates = (\<lambda>r s u a b g. (g, Inr (\<lambda>u. [[0, 0], [- 9, - 2]]))),
      get_noise_levels = (\<lambda>r g. (g, Inr [1, 1])),
      compute_sparsity = amplitude_sparsity 1,
      near_duplicates = (\<lambda>t. [])\<rparr>"

text \<open>The same, with an hdbscan that raises on a channel of exactly two peaks.\<close>

definition failing_hdbscan_externals :: "nat externals" where
  "failing_hdbscan_externals =
     example_externals
       \<lparr>hdbscan := (\<lambda>d g. if length d = 2 then (g, Inl ValueError)
                          else (g, Inr (replicate (length d) 0)))\<rparr>"

text \<open>
  The same, with an hdbscan that draws from the process-wide generator without
  advancing it: from an even state it finds noise only, from an odd state one cluster.
\<close>

definition state_reading_externals :: "nat externals" where
  "state_reading_externals =
     example_externals
       \<lparr>hdbscan := (\<lambda>d g. (g, Inr (replicate (length d) (if even g then - 1 else 0))))\<rparr>"

text \<open>
  The same, with libraries that reject an array of zero samples, as the fit of
  scikit-learn's TruncatedSVD and hdbscan do (ValueError).
\<close>

definition strict_externals :: "nat externals" where
  "strict_externals =
     example_externals
       \<lparr>extract_svd_features :=
          (\<lambda>r p g. if p = [] then (g, Inl ValueError)
                    else (g, Inr (map (\<lambda>q. [amplitude q]) p))),
        hdbscan :=
          (\<lambda>d g. if d = [] then (g, Inl ValueError)
                  else (g, Inr (replicate (length d) 0)))\<rparr>"

text \<open>
  The same, with three units of peak amplitude 1, 9 and 5 on channel 0 (noise level 1)
  and a sparsity threshold of 6: unit 0 is below the noise threshold 4, unit 2 passes it
  but keeps no channel.
\<close>

definition weak_unit_externals :: "nat externals" where
  "weak_unit_externals =
     example_externals
       \<lparr>estimate_templates :=
          (\<lambda>r s u a b g. (g, Inr (\<lambda>u. if u = 0 then [[0, 0], [1, 0]]
                                        else if u = 1 then [[0, 0], [- 9, 0]]
                                        else [[0, 0], [5, 0]]))),
        compute_sparsity := amplitude_sparsity 6\<rparr>"

section \<open>Masked reads and writes\<close>

lemma length_take_masked:
  "length msk = length xs \<Longrightarrow> length (take_masked msk xs) = count_true msk"
proof (induction msk arbitrary: xs)
  case Nil
  then show ?case by (simp add: take_masked_def count_true_def)
next
  case (Cons b msk)
  then obtain y ys where "xs = y # ys" by (cases xs) auto
  with Cons show ?case by (simp add: take_masked_def count_true_def)
qed

lemma take_masked_map:
  "take_masked (map P xs) (map f xs) = map f (filter P xs)"
  by (induction xs) (simp_all add: take_masked_def)

lemma length_scatter: "length (scatter msk vals xs) = length xs"
  by (induction msk vals xs rule: scatter.induct) simp_all

lemma scatter_unmasked:
  "i < length xs \<Longrightarrow> length msk = length xs \<Longrightarrow> \<not> msk ! i \<Longrightarrow> scatter msk vals xs ! i = xs ! i"
  by (induction msk vals xs arbitrary: i rule: scatter.induct)
     (auto simp: nth_Cons split: nat.splits)

lemma scatter_masked:
  "i < length xs \<Longrightarrow> length msk = length xs \<Longrightarrow> msk ! i \<Longrightarrow> length vals = count_true msk
     \<Longrightarrow> scatter msk vals xs ! i \<in> set vals"
  by (induction msk vals xs arbitrary: i rule: scatter.induct)
     (auto simp: nth_Cons count_true_def split: nat.splits)

lemma fill_masked_nth:
  "i < length xs \<Longrightarrow> length msk = length xs
     \<Longrightarrow> fill_masked msk v xs ! i = (if msk ! i then v else xs ! i)"
  by (simp add: fill_masked_def)

lemma length_fill_masked: "length msk = length xs \<Longrightarrow> length (fill_masked msk v xs) = length xs"
  by (simp add: fill_masked_def)

lemma assign_masked_Inr:
  assumes "assign_masked msk vals xs = Inr ys"
  shows "length ys = length xs"
    and "length msk = length xs"
    and "i < length xs \<Longrightarrow> \<not> msk ! i \<Longrightarrow> ys ! i = xs ! i"
    and "i < length xs \<Longrightarrow> msk ! i \<Longrightarrow> ys ! i \<in> set vals"
proof -
  from assms show len: "length msk = length xs"
    by (auto simp: assign_masked_def split: if_splits)
  from assms show "length ys = length xs"
    by (auto simp: assign_masked_def length_scatter length_fill_masked split: if_splits)
  from assms len show "i < length xs \<Longrightarrow> \<not> msk ! i \<Longrightarrow> ys ! i = xs ! i"
    by (auto simp: assign_masked_def scatter_unmasked fill_masked_nth split: if_splits)
  from assms len show "i < length xs \<Longrightarrow> msk ! i \<Longrightarrow> ys ! i \<in> set vals"
    by (auto simp: assign_masked_def scatter_masked fill_masked_nth length_Suc_conv split: if_splits)
qed

lemma length_np_unique: "length (np_unique xs) = card (set xs)"
  by (simp add: np_unique_def length_remdups_card_conv)

lemma set_np_unique: "set (np_unique xs) = set xs"
  by (simp add: np_unique_def)

section \<open>The renumbering of the per-channel labels\<close>

text \<open>The fallback \<^verbatim>\<open>np.zeros\<close> is itself a consecutive labelling: one cluster, number 0.\<close>

lemma dense_replicate: "dense_labels (replicate n 0)"
proof (cases n)
  case 0
  then show ?thesis by (simp add: dense_labels_def)
next
  case (Suc k)
  then have "set (filter (\<lambda>l. l > -1) (replicate n (0::int))) = {0}" by auto
  then have "length (np_unique (filter (\<lambda>l. l > -1) (replicate n (0::int)))) = 1"
    by (simp add: length_np_unique)
  then show ?thesis by (simp add: dense_labels_def list_all_iff)
qed

text \<open>The offset advances by the number of distinct clusters of the channel.\<close>

lemma offset_count:
  "length (np_unique (take_masked (map (\<lambda>l. l > -1) ls) (offset_valid nb ls)))
     = length (np_unique (filter (\<lambda>l. l > -1) ls))"
proof -
  have "take_masked (map (\<lambda>l. l > -1) ls) (offset_valid nb ls)
          = map (\<lambda>l. l + nb) (filter (\<lambda>l. l > -1) ls)"
    unfolding offset_valid_def take_masked_map by (rule map_cong) auto
  moreover have "card ((\<lambda>l. l + nb) ` set (filter (\<lambda>l. l > -1) ls))
                   = card (set (filter (\<lambda>l. l > -1) ls))"
    by (rule card_image) (simp add: inj_on_def)
  ultimately show ?thesis by (simp add: length_np_unique)
qed

lemma offset_range:
  assumes "dense_labels ls" and "v \<in> set (offset_valid nb ls)"
  shows "v = -1 \<or> (nb \<le> v \<and>
           v < nb + int (length (np_unique (take_masked (map (\<lambda>l. l > -1) ls) (offset_valid nb ls)))))"
proof -
  from assms(2) obtain l where l: "l \<in> set ls" and v: "v = (if l > -1 then l + nb else l)"
    by (auto simp: offset_valid_def)
  from assms(1) l have b: "-1 \<le> l" "l < int (length (np_unique (filter (\<lambda>l. l > -1) ls)))"
    by (auto simp: dense_labels_def list_all_iff)
  show ?thesis
  proof (cases "l > -1")
    case True
    with v b show ?thesis by (simp add: offset_count)
  next
    case False
    with b have "l = -1" by simp
    with v show ?thesis by simp
  qed
qed

text \<open>What one iteration that returns has done: nothing, or one masked assignment.\<close>

lemma circus_channel_step_Inr:
  assumes "circus_channel_step ext peaks dat c (pl, nb) g = (g', Inr (pl', nb'))"
  shows "(pl' = pl \<and> nb' = nb) \<or>
         (\<exists>ls. assign_masked (map (\<lambda>p. channel_index p = c) peaks) (offset_valid nb ls) pl = Inr pl'
            \<and> nb' = nb + int (length (np_unique (take_masked (map (\<lambda>l. l > -1) ls) (offset_valid nb ls))))
            \<and> ((\<exists>d g1. snd (hdbscan ext d g1) = Inr ls) \<or> (\<exists>n. ls = replicate n 0)))"
  using assms unfolding circus_channel_step_def Let_def
  by (auto split: sum.splits prod.splits if_splits)

lemma circus_channel_step_length:
  assumes "circus_channel_step ext peaks dat c (pl, nb) g = (g', Inr (pl', nb'))"
  shows "length pl' = length pl"
  using circus_channel_step_Inr [OF assms] by (auto dest: assign_masked_Inr(1))

lemma circus_channel_step_mono:
  assumes "circus_channel_step ext peaks dat c (pl, nb) g = (g', Inr (pl', nb'))"
  shows "nb \<le> nb'"
  using circus_channel_step_Inr [OF assms] by auto

lemma circus_channel_step_frame:
  assumes "circus_channel_step ext peaks dat c (pl, nb) g = (g', Inr (pl', nb'))"
    and "length pl = length peaks" and "i < length peaks" and "channel_index (peaks ! i) \<noteq> c"
  shows "pl' ! i = pl ! i"
  using circus_channel_step_Inr [OF assms(1)] assms(2,3,4)
  by (auto dest: assign_masked_Inr(3) [where i = i])

lemma circus_channel_step_summary:
  assumes step: "circus_channel_step ext peaks dat c (pl, nb) g = (g', Inr (pl', nb'))"
    and contract: "hdbscan_contract ext"
    and len: "length pl = length peaks"
  shows "nb \<le> nb'"
    and "i < length peaks \<Longrightarrow> channel_index (peaks ! i) \<noteq> c \<Longrightarrow> pl' ! i = pl ! i"
    and "i < length peaks \<Longrightarrow> channel_index (peaks ! i) = c
           \<Longrightarrow> pl' ! i = pl ! i \<or> pl' ! i = -1 \<or> (nb \<le> pl' ! i \<and> pl' ! i < nb')"
proof -
  let ?msk = "map (\<lambda>p. channel_index p = c) peaks"
  from circus_channel_step_Inr [OF step]
  consider (same) "pl' = pl" "nb' = nb"
    | (assigned) ls where "assign_masked ?msk (offset_valid nb ls) pl = Inr pl'"
        "nb' = nb + int (length (np_unique (take_masked (map (\<lambda>l. l > -1) ls) (offset_valid nb ls))))"
        "dense_labels ls"
    using contract by (auto simp: hdbscan_contract_def dense_replicate)
  then have "nb \<le> nb' \<and>
      (i < length peaks \<longrightarrow> channel_index (peaks ! i) \<noteq> c \<longrightarrow> pl' ! i = pl ! i) \<and>
      (i < length peaks \<longrightarrow> channel_index (peaks ! i) = c
           \<longrightarrow> pl' ! i = pl ! i \<or> pl' ! i = -1 \<or> (nb \<le> pl' ! i \<and> pl' ! i < nb'))"
  proof cases
    case same
    then show ?thesis by simp
  next
    case assigned
    have "nb \<le> nb'" using assigned(2) by simp
    moreover have "pl' ! i = pl ! i" if "i < length peaks" "channel_index (peaks ! i) \<noteq> c"
      using assign_masked_Inr(3) [OF assigned(1), of i] that len by simp
    moreover have "pl' ! i = -1 \<or> (nb \<le> pl' ! i \<and> pl' ! i < nb')"
      if "i < length peaks" "channel_index (peaks ! i) = c"
    proof -
      have "pl' ! i \<in> set (offset_valid nb ls)"
        using assign_masked_Inr(4) [OF assigned(1), of i] that len by simp
      from offset_range [OF assigned(3) this] show ?thesis using assigned(2) by simp
    qed
    ultimately show ?thesis by blast
  qed
  then show "nb \<le> nb'"
    and "i < length peaks \<Longrightarrow> channel_index (peaks ! i) \<noteq> c \<Longrightarrow> pl' ! i = pl ! i"
    and "i < length peaks \<Longrightarrow> channel_index (peaks ! i) = c
           \<Longrightarrow> pl' ! i = pl ! i \<or> pl' ! i = -1 \<or> (nb \<le> pl' ! i \<and> pl' ! i < nb')"
    by blast+
qed

text \<open>The loop, by induction on the channels still to visit.\<close>

lemma circus_cluster_loop_length:
  "circus_cluster_loop ext peaks dat cs (pl, nb) g = (g', Inr (pl', nb'))
     \<Longrightarrow> length pl' = length pl"
proof (induction cs arbitrary: pl nb g)
  case Nil
  then show ?case by simp
next
  case (Cons c cs)
  from Cons.prems obtain g1 pl1 nb1 where
    step: "circus_channel_step ext peaks dat c (pl, nb) g = (g1, Inr (pl1, nb1))" and
    rest: "circus_cluster_loop ext peaks dat cs (pl1, nb1) g1 = (g', Inr (pl', nb'))"
    by (auto split: prod.splits sum.splits)
  from Cons.IH [OF rest] circus_channel_step_length [OF step] show ?case by simp
qed

lemma circus_cluster_loop_frame:
  "circus_cluster_loop ext peaks dat cs (pl, nb) g = (g', Inr (pl', nb'))
     \<Longrightarrow> length pl = length peaks \<Longrightarrow> i < length peaks
     \<Longrightarrow> channel_index (peaks ! i) \<notin> set cs \<Longrightarrow> pl' ! i = pl ! i"
proof (induction cs arbitrary: pl nb g)
  case Nil
  then show ?case by simp
next
  case (Cons c cs)
  from Cons.prems(1) obtain g1 pl1 nb1 where
    step: "circus_channel_step ext peaks dat c (pl, nb) g = (g1, Inr (pl1, nb1))" and
    rest: "circus_cluster_loop ext peaks dat cs (pl1, nb1) g1 = (g', Inr (pl', nb'))"
    by (auto split: prod.splits sum.splits)
  have "length pl1 = length peaks"
    using circus_channel_step_length [OF step] Cons.prems(2) by simp
  from Cons.IH [OF rest this Cons.prems(3)] circus_channel_step_frame [OF step Cons.prems(2,3)]
    Cons.prems(4)
  show ?case by simp
qed

lemma circus_cluster_loop_summary:
  assumes "circus_cluster_loop ext peaks dat cs (pl, nb) g = (g', Inr (pl', nb'))"
    and "hdbscan_contract ext" and "length pl = length peaks" and "distinct cs"
  shows "nb \<le> nb' \<and>
     (\<forall>i<length peaks. channel_index (peaks ! i) \<notin> set cs \<longrightarrow> pl' ! i = pl ! i) \<and>
     (\<forall>i<length peaks. channel_index (peaks ! i) \<in> set cs \<longrightarrow> pl ! i = -1
         \<longrightarrow> pl' ! i = -1 \<or> (nb \<le> pl' ! i \<and> pl' ! i < nb'))"
  using assms
proof (induction cs arbitrary: pl nb g)
  case Nil
  then show ?case by simp
next
  case (Cons c cs)
  from Cons.prems(1) obtain g1 pl1 nb1 where
    step: "circus_channel_step ext peaks dat c (pl, nb) g = (g1, Inr (pl1, nb1))" and
    rest: "circus_cluster_loop ext peaks dat cs (pl1, nb1) g1 = (g', Inr (pl', nb'))"
    by (auto split: prod.splits sum.splits)
  have len1: "length pl1 = length peaks"
    using circus_channel_step_length [OF step] Cons.prems(3) by simp
  have dist: "distinct cs" "c \<notin> set cs" using Cons.prems(4) by simp_all
  note S = circus_channel_step_summary [OF step Cons.prems(2) Cons.prems(3)]
  from Cons.IH [OF rest Cons.prems(2) len1 dist(1)]
  have mono: "nb1 \<le> nb'"
    and frame: "\<And>i. i < length peaks \<Longrightarrow> channel_index (peaks ! i) \<notin> set cs \<Longrightarrow> pl' ! i = pl1 ! i"
    and range: "\<And>i. i < length peaks \<Longrightarrow> channel_index (peaks ! i) \<in> set cs \<Longrightarrow> pl1 ! i = -1
                  \<Longrightarrow> pl' ! i = -1 \<or> (nb1 \<le> pl' ! i \<and> pl' ! i < nb')"
    by blast+
  have "nb \<le> nb'" using S(1) mono by simp
  moreover have "pl' ! i = pl ! i"
    if "i < length peaks" "channel_index (peaks ! i) \<notin> set (c # cs)" for i
    using frame [of i] S(2) [of i] that by simp
  moreover have "pl' ! i = -1 \<or> (nb \<le> pl' ! i \<and> pl' ! i < nb')"
    if i: "i < length peaks" and ch: "channel_index (peaks ! i) \<in> set (c # cs)"
      and init: "pl ! i = -1" for i
  proof (cases "channel_index (peaks ! i) = c")
    case True
    then have "pl' ! i = pl1 ! i" using frame [of i] i dist(2) by simp
    moreover have "pl1 ! i = -1 \<or> (nb \<le> pl1 ! i \<and> pl1 ! i < nb1)"
      using S(3) [of i] i True init by auto
    ultimately show ?thesis using mono by auto
  next
    case False
    then have "pl1 ! i = -1" using S(2) [of i] i init by simp
    moreover have "channel_index (peaks ! i) \<in> set cs" using ch False by simp
    ultimately show ?thesis using range [of i] i S(1) by auto
  qed
  ultimately show ?case by blast
qed

lemma circus_cluster_loop_disjoint:
  assumes "circus_cluster_loop ext peaks dat cs (pl, nb) g = (g', Inr (pl', nb'))"
    and "hdbscan_contract ext" and "length pl = length peaks" and "distinct cs"
    and "\<forall>k<length peaks. channel_index (peaks ! k) \<in> set cs \<longrightarrow> pl ! k = -1"
    and "i < length peaks" and "j < length peaks"
    and "channel_index (peaks ! i) \<in> set cs" and "channel_index (peaks ! j) \<in> set cs"
    and "channel_index (peaks ! i) \<noteq> channel_index (peaks ! j)"
    and "pl' ! i \<noteq> -1" and "pl' ! j \<noteq> -1"
  shows "pl' ! i \<noteq> pl' ! j"
  using assms
proof (induction cs arbitrary: pl nb g)
  case Nil
  then show ?case by simp
next
  case (Cons c cs)
  from Cons.prems(1) obtain g1 pl1 nb1 where
    step: "circus_channel_step ext peaks dat c (pl, nb) g = (g1, Inr (pl1, nb1))" and
    rest: "circus_cluster_loop ext peaks dat cs (pl1, nb1) g1 = (g', Inr (pl', nb'))"
    by (auto split: prod.splits sum.splits)
  have len1: "length pl1 = length peaks"
    using circus_channel_step_length [OF step] Cons.prems(3) by simp
  have dist: "distinct cs" "c \<notin> set cs" using Cons.prems(4) by simp_all
  note S = circus_channel_step_summary [OF step Cons.prems(2) Cons.prems(3)]
  note L = circus_cluster_loop_summary [OF rest Cons.prems(2) len1 dist(1)]
  have own: "pl' ! k = pl1 ! k \<and> nb \<le> pl' ! k \<and> pl' ! k < nb1"
    if "k < length peaks" "channel_index (peaks ! k) = c" "pl' ! k \<noteq> -1" for k
  proof -
    have "pl' ! k = pl1 ! k" using L that dist(2) by simp
    moreover have "pl1 ! k = pl ! k \<or> pl1 ! k = -1 \<or> (nb \<le> pl1 ! k \<and> pl1 ! k < nb1)"
      using S(3) [of k] that by simp
    moreover have "pl ! k = -1" using Cons.prems(5) that by simp
    ultimately show ?thesis using that(3) by auto
  qed
  have later: "pl1 ! k = -1 \<and> nb1 \<le> pl' ! k"
    if "k < length peaks" "channel_index (peaks ! k) \<in> set cs" "pl' ! k \<noteq> -1" for k
  proof -
    have "channel_index (peaks ! k) \<noteq> c" using that dist(2) by auto
    then have "pl1 ! k = -1" using S(2) [of k] that Cons.prems(5) by simp
    then show ?thesis using L that by auto
  qed
  consider (i_first) "channel_index (peaks ! i) = c" "channel_index (peaks ! j) \<in> set cs"
    | (j_first) "channel_index (peaks ! j) = c" "channel_index (peaks ! i) \<in> set cs"
    | (both) "channel_index (peaks ! i) \<in> set cs" "channel_index (peaks ! j) \<in> set cs"
         "channel_index (peaks ! i) \<noteq> c" "channel_index (peaks ! j) \<noteq> c"
    using Cons.prems(8,9,10) by auto
  then show ?case
  proof cases
    case i_first
    from own [OF Cons.prems(6) i_first(1) Cons.prems(11)]
         later [OF Cons.prems(7) i_first(2) Cons.prems(12)]
    show ?thesis by simp
  next
    case j_first
    from own [OF Cons.prems(7) j_first(1) Cons.prems(12)]
         later [OF Cons.prems(6) j_first(2) Cons.prems(11)]
    show ?thesis by simp
  next
    case both
    have init1: "\<forall>k<length peaks. channel_index (peaks ! k) \<in> set cs \<longrightarrow> pl1 ! k = -1"
    proof (intro allI impI)
      fix k assume k: "k < length peaks" "channel_index (peaks ! k) \<in> set cs"
      then have "channel_index (peaks ! k) \<noteq> c" using dist(2) by auto
      then show "pl1 ! k = -1" using S(2) [of k] k Cons.prems(5) by simp
    qed
    from Cons.IH [OF rest Cons.prems(2) len1 dist(1) init1 Cons.prems(6,7) both(1,2)
        Cons.prems(10,11,12)]
    show ?thesis .
  qed
qed

lemma example_clustering:
  "circus_clustering example_externals example_peaks example_features 7 = (7, Inr ([0, 1, 0], 2))"
  by code_simp

text \<open>
  Claim C6. In the learned-subspace path the clustering runs channel by channel and
  the labels of a channel are shifted by the running offset, so two peaks of different
  channels never carry the same cluster index: whenever the loop returns and both
  labels are clusters (not \<open>-1\<close>), they differ. The renumbering relies on hdbscan
  numbering the clusters of one call consecutively from 0 (\<open>hdbscan_contract\<close>).
\<close>

theorem circus_cluster_indices_disjoint:
  assumes "hdbscan_contract ext"
    and "snd (circus_clustering ext peaks all_pc_data g) = Inr (peak_labels, nb_clusters)"
    and "i < length peaks" and "j < length peaks"
    and "channel_index (peaks ! i) \<noteq> channel_index (peaks ! j)"
    and "peak_labels ! i \<noteq> -1" and "peak_labels ! j \<noteq> -1"
  shows "peak_labels ! i \<noteq> peak_labels ! j"
proof -
  let ?cs = "np_unique (map channel_index peaks)"
  from assms(2) obtain g' where
    loop: "circus_cluster_loop ext peaks all_pc_data ?cs (replicate (length peaks) (-1), 0) g
             = (g', Inr (peak_labels, nb_clusters))"
    unfolding circus_clustering_def by (metis prod.collapse)
  have cs: "distinct ?cs" "set ?cs = channel_index ` set peaks"
    by (simp_all add: np_unique_def)
  have mem: "channel_index (peaks ! k) \<in> set ?cs" if "k < length peaks" for k
    using that cs(2) by auto
  show ?thesis
    by (rule circus_cluster_loop_disjoint [OF loop assms(1) _ cs(1) _ assms(3,4)
          mem [OF assms(3)] mem [OF assms(4)] assms(5,6,7)]) simp_all
qed

text \<open>
  Witness for C6: three peaks on channels 0, 1, 0 and an hdbscan that finds one cluster
  per channel; the loop returns the labels 0, 1, 0.
\<close>

theorem circus_cluster_indices_disjoint_witness:
  "hdbscan_contract example_externals
   \<and> snd (circus_clustering example_externals example_peaks example_features 7)
       = Inr ([0, 1, 0], 2)
   \<and> (0::nat) < length example_peaks \<and> (1::nat) < length example_peaks
   \<and> channel_index (example_peaks ! 0) \<noteq> channel_index (example_peaks ! 1)
   \<and> [0, 1, 0] ! 0 \<noteq> (- 1 :: int) \<and> [0, 1, 0] ! 1 \<noteq> (- 1 :: int)
   \<and> [0, 1, 0 :: int] ! 0 \<noteq> [0, 1, 0] ! 1"
proof -
  have a: "hdbscan_contract example_externals"
    by (auto simp: hdbscan_contract_def example_externals_def dense_replicate)
  have b: "snd (circus_clustering example_externals example_peaks example_features 7)
             = Inr ([0, 1, 0], 2)"
    by (simp add: example_clustering)
  have c: "(0::nat) < length example_peaks" "(1::nat) < length example_peaks"
    "channel_index (example_peaks ! 0) \<noteq> channel_index (example_peaks ! 1)"
    by (simp_all add: example_peaks_def example_peak_def)
  have d: "[0, 1, 0] ! 0 \<noteq> (- 1 :: int)" "[0, 1, 0] ! 1 \<noteq> (- 1 :: int)" by simp_all
  from circus_cluster_indices_disjoint [OF a b c d] a b c d show ?thesis by blast
qed

section \<open>An hdbscan call that raises\<close>

lemma circus_channel_step_returns:
  assumes "svd_returns ext" and "hdbscan_rows ext"
    and "length dat = length peaks" and "length pl = length peaks"
  shows "\<exists>g' pl' nb'. circus_channel_step ext peaks dat c (pl, nb) g = (g', Inr (pl', nb'))"
proof -
  let ?msk = "map (\<lambda>p. channel_index p = c) peaks"
  let ?sub = "take_masked ?msk dat"
  have sub: "bool_index dat ?msk = Inr ?sub" "length ?sub = count_true ?msk"
    using assms(3) by (simp_all add: bool_index_def length_take_masked)
  from assms(1) obtain out where
    out: "snd (fit_transform ext ?sub g) = Inr out" "length out = length ?sub"
    unfolding svd_returns_def by blast
  obtain g1 where svd: "fit_transform ext ?sub g = (g1, Inr out)"
    using out(1) by (metis prod.collapse)
  obtain g2 r where hd: "hdbscan ext out g1 = (g2, r)" by (cases "hdbscan ext out g1")
  define ls where "ls = (case r of Inr ls \<Rightarrow> ls | Inl e \<Rightarrow> replicate (length out) 0)"
  have lls: "length ls = count_true ?msk"
  proof (cases r)
    case (Inl e)
    then show ?thesis using out(2) sub(2) by (simp add: ls_def)
  next
    case (Inr l)
    then have "length l = length out"
      using assms(2) hd unfolding hdbscan_rows_def by (metis snd_conv)
    then show ?thesis using Inr out(2) sub(2) by (simp add: ls_def)
  qed
  have "assign_masked ?msk (offset_valid nb ls) pl = Inr (scatter ?msk (offset_valid nb ls) pl)"
    using lls assms(4) by (simp add: assign_masked_def offset_valid_def)
  then show ?thesis
    unfolding circus_channel_step_def Let_def
    by (simp add: sub(1) svd hd ls_def [symmetric])
qed

lemma circus_cluster_loop_returns:
  assumes "svd_returns ext" and "hdbscan_rows ext" and "length dat = length peaks"
  shows "length pl = length peaks
     \<Longrightarrow> \<exists>g' pl' nb'. circus_cluster_loop ext peaks dat cs (pl, nb) g = (g', Inr (pl', nb'))"
proof (induction cs arbitrary: pl nb g)
  case Nil
  then show ?case by simp
next
  case (Cons c cs)
  from circus_channel_step_returns [OF assms Cons.prems] obtain g1 pl1 nb1 where
    step: "circus_channel_step ext peaks dat c (pl, nb) g = (g1, Inr (pl1, nb1))" by blast
  have "length pl1 = length peaks"
    using circus_channel_step_length [OF step] Cons.prems by simp
  from Cons.IH [OF this] show ?case by (simp add: step)
qed

text \<open>
  In the iteration of a channel whose hdbscan call raises, every peak of the channel
  receives the current offset as its label.
\<close>

lemma circus_channel_step_raise:
  assumes step: "circus_channel_step ext peaks dat c (pl, nb) g = (g', Inr (pl', nb'))"
    and svd: "svd_returns ext"
    and raises: "hdbscan_raises_on ext (channel_data peaks dat c)"
    and len: "length dat = length peaks" "length pl = length peaks"
    and i: "i < length peaks" "channel_index (peaks ! i) = c"
  shows "pl' ! i = nb"
proof -
  let ?msk = "map (\<lambda>p. channel_index p = c) peaks"
  let ?sub = "take_masked ?msk dat"
  have sub: "bool_index dat ?msk = Inr ?sub" "length ?sub = count_true ?msk"
    using len(1) by (simp_all add: bool_index_def length_take_masked)
  have "?msk ! i" using i by simp
  then have "True \<in> set ?msk" using i(1) by (metis length_map nth_mem)
  then have pos: "0 < count_true ?msk"
    unfolding count_true_def by (simp add: filter_empty_conv)
  from svd obtain out where
    out: "snd (fit_transform ext ?sub g) = Inr out" "length out = length ?sub"
    unfolding svd_returns_def by blast
  obtain g1 where f: "fit_transform ext ?sub g = (g1, Inr out)"
    using out(1) by (metis prod.collapse)
  from raises out(1) obtain e where "snd (hdbscan ext out g1) = Inl e"
    unfolding hdbscan_raises_on_def channel_data_def by blast
  then obtain g2 where h: "hdbscan ext out g1 = (g2, Inl e)" by (metis prod.collapse)
  have n: "0 < length out" using out(2) sub(2) pos by simp
  have valid: "count_true (replicate (length out) True) = length out"
    by (simp add: count_true_def)
  have shifted: "offset_valid nb (replicate (length out) 0) = replicate (length out) nb"
    by (simp add: offset_valid_def)
  have ne: "out \<noteq> []" using n by simp
  from step ne have "assign_masked ?msk (replicate (length out) nb) pl = Inr pl'"
    unfolding circus_channel_step_def Let_def
    by (auto simp: sub(1) f h valid shifted split: sum.splits)
  from assign_masked_Inr(4) [OF this, of i] i len(2) show ?thesis by simp
qed

lemma circus_cluster_loop_raise:
  assumes svd: "svd_returns ext"
    and raises: "hdbscan_raises_on ext (channel_data peaks dat c)"
    and len: "length dat = length peaks"
  shows "circus_cluster_loop ext peaks dat cs (pl, nb) g = (g', Inr (pl', nb'))
     \<Longrightarrow> length pl = length peaks \<Longrightarrow> distinct cs \<Longrightarrow> c \<in> set cs
     \<Longrightarrow> \<exists>k\<ge>nb. \<forall>i<length peaks. channel_index (peaks ! i) = c \<longrightarrow> pl' ! i = k"
proof (induction cs arbitrary: pl nb g)
  case Nil
  then show ?case by simp
next
  case (Cons c0 cs)
  from Cons.prems(1) obtain g1 pl1 nb1 where
    step: "circus_channel_step ext peaks dat c0 (pl, nb) g = (g1, Inr (pl1, nb1))" and
    rest: "circus_cluster_loop ext peaks dat cs (pl1, nb1) g1 = (g', Inr (pl', nb'))"
    by (auto split: prod.splits sum.splits)
  have len1: "length pl1 = length peaks"
    using circus_channel_step_length [OF step] Cons.prems(2) by simp
  show ?case
  proof (cases "c = c0")
    case True
    have "pl' ! i = nb" if "i < length peaks" "channel_index (peaks ! i) = c" for i
    proof -
      have "channel_index (peaks ! i) \<notin> set cs" using that True Cons.prems(3) by simp
      from circus_cluster_loop_frame [OF rest len1 that(1) this]
        circus_channel_step_raise [OF step svd raises [unfolded True] len Cons.prems(2) that(1)]
        that(2) True
      show ?thesis by simp
    qed
    then show ?thesis by auto
  next
    case False
    then have "c \<in> set cs" using Cons.prems(4) by simp
    from Cons.IH [OF rest len1 _ this] Cons.prems(3)
    obtain k where "nb1 \<le> k" "\<forall>i<length peaks. channel_index (peaks ! i) = c \<longrightarrow> pl' ! i = k"
      by auto
    with circus_channel_step_mono [OF step] show ?thesis by (intro exI [of _ k]) simp
  qed
qed

text \<open>
  Claim C2, as stated, fails. With an hdbscan that raises ValueError on the two peaks
  of channel 0, the loop does go on to channel 1, but the peaks of channel 0 are not
  noise: \<^verbatim>\<open>np.zeros\<close> gives them the label 0, which is above \<open>-1\<close>, so they become
  cluster 0, the offset advances to 1, and the peak of channel 1 becomes cluster 1.
\<close>

theorem circus_hdbscan_failure_counterexample:
  "snd (hdbscan failing_hdbscan_externals (channel_data example_peaks example_features 0) 7)
     = Inl ValueError
   \<and> snd (circus_clustering failing_hdbscan_externals example_peaks example_features 7)
     = Inr ([0, 1, 0], 2)
   \<and> map channel_index example_peaks = [0, 1, 0]"
  by code_simp

text \<open>
  Claim C2, amended. When the per-channel hdbscan call of a channel raises, the loop
  neither aborts nor marks the channel as noise: it returns, and the peaks of that
  channel form one cluster of their own. All of them carry one common label \<open>k\<close>
  with \<open>0 \<le> k < nb_clusters\<close>, and no peak of another channel carries \<open>k\<close>.
  This holds when \<^verbatim>\<open>all_pc_data\<close> has one row per peak, the per-channel SVD (it
  stands outside the \<^verbatim>\<open>try\<close>) returns one row per input row, and every hdbscan
  call that returns gives one label per row and numbers its clusters consecutively
  from 0.
\<close>

theorem circus_hdbscan_failure_one_cluster:
  assumes "svd_returns ext" and "hdbscan_rows ext" and "hdbscan_contract ext"
    and "length all_pc_data = length peaks"
    and "c \<in> channel_index ` set peaks"
    and "hdbscan_raises_on ext (channel_data peaks all_pc_data c)"
  shows "\<exists>peak_labels nb_clusters k.
           snd (circus_clustering ext peaks all_pc_data g) = Inr (peak_labels, nb_clusters)
           \<and> 0 \<le> k \<and> k < nb_clusters
           \<and> (\<forall>i<length peaks. channel_index (peaks ! i) = c \<longrightarrow> peak_labels ! i = k)
           \<and> (\<forall>j<length peaks. channel_index (peaks ! j) \<noteq> c \<longrightarrow> peak_labels ! j \<noteq> k)"
proof -
  let ?cs = "np_unique (map channel_index peaks)"
  let ?init = "replicate (length peaks) (- 1 :: int)"
  have cs: "distinct ?cs" "c \<in> set ?cs" using assms(5) by (simp_all add: np_unique_def)
  have mem: "channel_index (peaks ! n) \<in> set ?cs" if "n < length peaks" for n
    using that by (simp add: np_unique_def)
  have "\<exists>g' pl' nb'.
          circus_cluster_loop ext peaks all_pc_data ?cs (?init, 0) g = (g', Inr (pl', nb'))"
    by (rule circus_cluster_loop_returns [OF assms(1,2,4)]) simp
  then obtain g' pl' nb' where
    loop: "circus_cluster_loop ext peaks all_pc_data ?cs (?init, 0) g = (g', Inr (pl', nb'))"
    by blast
  have len: "length ?init = length peaks" by simp
  have init: "\<forall>n<length peaks. channel_index (peaks ! n) \<in> set ?cs \<longrightarrow> ?init ! n = -1"
    by simp
  from circus_cluster_loop_raise [OF assms(1,6,4) loop len cs] obtain k where
    k: "0 \<le> k" "\<forall>i<length peaks. channel_index (peaks ! i) = c \<longrightarrow> pl' ! i = k"
    by auto
  from assms(5) obtain i0 where i0: "i0 < length peaks" "channel_index (peaks ! i0) = c"
    by (auto simp: in_set_conv_nth)
  have ki: "pl' ! i0 = k" using k(2) i0 by simp
  then have valid: "pl' ! i0 \<noteq> -1" using k(1) by simp
  from circus_cluster_loop_summary [OF loop assms(3) len cs(1)] i0(1) mem [OF i0(1)] valid
  have "pl' ! i0 < nb'" by auto
  then have below: "k < nb'" using ki by simp
  have fresh: "pl' ! j \<noteq> k" if j: "j < length peaks" "channel_index (peaks ! j) \<noteq> c" for j
  proof (cases "pl' ! j = -1")
    case True
    then show ?thesis using k(1) by simp
  next
    case False
    have other: "channel_index (peaks ! i0) \<noteq> channel_index (peaks ! j)"
      using i0(2) j(2) by simp
    from circus_cluster_loop_disjoint [OF loop assms(3) len cs(1) init i0(1) j(1)
        mem [OF i0(1)] mem [OF j(1)] other valid False]
    show ?thesis using ki by simp
  qed
  have "snd (circus_clustering ext peaks all_pc_data g) = Inr (pl', nb')"
    unfolding circus_clustering_def using loop by simp
  with k below fresh show ?thesis by blast
qed

text \<open>
  Witness for the amended C2: the failing hdbscan above, and channel 0. Its two peaks
  share a label below the number of clusters, and the peak of channel 1 has another.
\<close>

theorem circus_hdbscan_failure_one_cluster_witness:
  "svd_returns failing_hdbscan_externals \<and> hdbscan_rows failing_hdbscan_externals
   \<and> hdbscan_contract failing_hdbscan_externals
   \<and> length example_features = length example_peaks
   \<and> 0 \<in> channel_index ` set example_peaks
   \<and> hdbscan_raises_on failing_hdbscan_externals (channel_data example_peaks example_features 0)
   \<and> (\<exists>peak_labels nb_clusters k.
         snd (circus_clustering failing_hdbscan_externals example_peaks example_features 7)
           = Inr (peak_labels, nb_clusters)
         \<and> 0 \<le> k \<and> k < nb_clusters
         \<and> peak_labels ! 0 = k \<and> peak_labels ! 2 = k \<and> peak_labels ! 1 \<noteq> k)"
proof -
  have a: "svd_returns failing_hdbscan_externals"
    by (simp add: svd_returns_def failing_hdbscan_externals_def example_externals_def)
  have b: "hdbscan_rows failing_hdbscan_externals"
    by (simp add: hdbscan_rows_def failing_hdbscan_externals_def example_externals_def)
  have n: "hdbscan_contract failing_hdbscan_externals"
    by (auto simp: hdbscan_contract_def failing_hdbscan_externals_def example_externals_def
          dense_replicate split: if_splits)
  have c: "length example_features = length example_peaks"
    by (simp add: example_features_def example_peaks_def)
  have d: "0 \<in> channel_index ` set example_peaks"
    by (simp add: example_peaks_def example_peak_def)
  have cd: "channel_data example_peaks example_features 0 = [[- 50], [- 50]]"
    by code_simp
  have e: "hdbscan_raises_on failing_hdbscan_externals (channel_data example_peaks example_features 0)"
    unfolding cd
    by (auto simp: hdbscan_raises_on_def failing_hdbscan_externals_def example_externals_def)
  have l: "length example_peaks = 3"
    "channel_index (example_peaks ! 0) = 0" "channel_index (example_peaks ! 2) = 0"
    "channel_index (example_peaks ! 1) \<noteq> 0"
    by (simp_all add: example_peaks_def example_peak_def)
  from circus_hdbscan_failure_one_cluster [OF a b n c d e, of 7] obtain peak_labels nb_clusters k
    where r: "snd (circus_clustering failing_hdbscan_externals example_peaks example_features 7)
                = Inr (peak_labels, nb_clusters)"
      "0 \<le> k" "k < nb_clusters"
      "\<forall>i<length example_peaks. channel_index (example_peaks ! i) = 0 \<longrightarrow> peak_labels ! i = k"
      "\<forall>j<length example_peaks. channel_index (example_peaks ! j) \<noteq> 0 \<longrightarrow> peak_labels ! j \<noteq> k"
    by blast
  have "peak_labels ! 0 = k" "peak_labels ! 2 = k" "peak_labels ! 1 \<noteq> k"
    using r(4,5) l by auto
  with a b n c d e r(1,2,3) show ?thesis by blast
qed

section \<open>Pruning and the peak labels\<close>

text \<open>
  Claim C1 does not hold of the code. Five peaks carry the labels 0, 1, 2, 1, 2; unit 0
  is weak (amplitude 1, below the noise threshold 4 of the random-projection path) and
  unit 2 loses every channel under the sparsity rule, so only unit 1 survives pruning.

  \<^item> \<^verbatim>\<open>circus.py\<close> (lines 198-202) drops the empty templates and never touches
    \<^verbatim>\<open>peak_labels\<close>: the labels 0 and 2 of the removed units go on to deduplication.
  \<^item> \<^verbatim>\<open>random_projections.py\<close> (lines 166-173) does reset labels, but takes the
    positions of the empty templates among the \<^emph>\<open>valid\<close> templates for unit indices:
    unit 2 is at position 1 there, so the labels of the surviving unit 1 are reset and
    the label 2 of the removed unit stays.
\<close>

theorem pruning_leaves_dangling_labels:
  "snd (circus_templates weak_unit_externals example_params example_recording five_peaks
          [0, 1, 2, 1, 2] 7)
     = Inr (\<lparr>templates_array = [[[0, 0], [- 9, 0]]], unit_ids = [1],
             sparsity_mask = [[True, False]]\<rparr>, [0, 1, 2, 1, 2])
   \<and> snd (rp_templates weak_unit_externals example_params example_recording five_peaks
          [0, 1, 2, 1, 2] 7)
     = Inr (\<lparr>templates_array = [[[0, 0], [- 9, 0]]], unit_ids = [1],
             sparsity_mask = [[True, False]]\<rparr>, [- 1, - 1, 2, - 1, 2])"
  by code_simp

section \<open>Deduplication and the returned pair\<close>

lemma remove_duplicates_pair:
  "remove_duplicates_via_matching nd t pl = (labels, pl')
     \<Longrightarrow> length pl' = length pl \<and> (\<forall>x\<in>set pl'. x = -1 \<or> x \<in> set labels)"
  unfolding remove_duplicates_via_matching_def Let_def
  by (auto simp: set_np_unique)

text \<open>
  Claim C4 (against the deduplication as the specification describes it): a second
  call on the labels the first call returned, with the same templates and the same
  matching outcome, returns the same pair. A surviving unit is never a discarded one,
  so no label is redirected twice.
\<close>

theorem remove_duplicates_idempotent:
  "remove_duplicates_via_matching nd t (snd (remove_duplicates_via_matching nd t peak_labels))
     = remove_duplicates_via_matching nd t peak_labels"
proof -
  let ?surv = "filter (\<lambda>u. u \<notin> set (map fst (nd t))) (unit_ids t)"
  have kept: "map_of (nd t) s = None" if "s \<in> set ?surv" for s
    using that by (simp add: map_of_eq_None_iff)
  show ?thesis
    unfolding remove_duplicates_via_matching_def Let_def
    by (auto simp: kept)
qed

lemma labelled_spikes_length:
  "labelled_spikes peaks pl = Inr spikes \<Longrightarrow> length pl = length peaks"
  unfolding labelled_spikes_def Let_def bool_index_def
  by (auto split: if_splits sum.splits)

lemma length_rp_reset_labels: "length (rp_reset_labels v e pl) = length pl"
  by (simp add: rp_reset_labels_def Let_def fill_masked_def isin_def)

lemma circus_templates_pair:
  "circus_templates ext prm rec peaks pl g = (g', Inr (t, pl')) \<Longrightarrow> pl' = pl"
  unfolding circus_templates_def stage_bind_def stage_of_def Let_def circus_prune_def
  by (auto split: prod.splits sum.splits)

lemma rp_templates_pair:
  "rp_templates ext prm rec peaks pl g = (g', Inr (t, pl'))
     \<Longrightarrow> length pl' = length pl \<and> length pl = length peaks"
  unfolding rp_templates_def stage_bind_def stage_of_def Let_def rp_prune_def
  by (auto split: prod.splits sum.splits
           simp: length_rp_reset_labels dest: labelled_spikes_length)

lemma circus_clustering_length:
  assumes "circus_clustering ext peaks dat g = (g', Inr (pl, nb))"
  shows "length pl = length peaks"
  using circus_cluster_loop_length [OF assms [unfolded circus_clustering_def]] by simp

lemma circus_main_Inr:
  assumes "snd (circus_main ext prm rec peaks g) = Inr (labels, pl')"
  shows "length pl' = length peaks \<and> (\<forall>x\<in>set pl'. x = -1 \<or> x \<in> set labels)"
  using assms
  unfolding circus_main_def stage_bind_def stage_of_def Let_def
  by (auto split: prod.splits sum.splits if_splits
           dest!: circus_clustering_length circus_templates_pair remove_duplicates_pair)

lemma rp_main_Inr:
  assumes "snd (rp_main ext prm rec peaks g) = Inr (labels, pl')"
  shows "length pl' = length peaks \<and> (\<forall>x\<in>set pl'. x = -1 \<or> x \<in> set labels)"
  using assms
  unfolding rp_main_def stage_bind_def stage_of_def Let_def
  by (auto split: prod.splits sum.splits if_splits
           dest!: rp_templates_pair remove_duplicates_pair)

lemma circus_example:
  "circus_main example_externals example_params example_recording example_peaks 7
     = (42, Inr ([0, 1], [0, 1, 0]))"
  by code_simp

lemma rp_example:
  "rp_main example_externals example_params example_recording example_peaks 7
     = (7, Inr ([0], [0, 0, 0]))"
proof -
  have t: "rp_templates example_externals example_params example_recording example_peaks [0, 0, 0] 7
           = (7, Inr (\<lparr>templates_array = [[[0, 0], [- 9, - 2]]], unit_ids = [0],
                        sparsity_mask = [[True, True]]\<rparr>, [0, 0, 0]))"
    by code_simp
  have d: "remove_duplicates_via_matching (near_duplicates example_externals)
             \<lparr>templates_array = [[[0, 0], [- 9, - 2]]], unit_ids = [0],
                        sparsity_mask = [[True, True]]\<rparr> [0, 0, 0] = ([0], [0, 0, 0])"
    by code_simp
  have f: "extract_projection_features example_externals example_recording example_peaks m 7
            = (7, Inr [[- 50], [- 50], [- 50]])" for m
    by (simp add: example_externals_def example_peaks_def example_peak_def)
  have h: "hdbscan example_externals [[- 50], [- 50], [- 50]] 7 = (7, Inr [0, 0, 0])"
    by (simp add: example_externals_def)
  have v: "HAVE_HDBSCAN example_externals" by (simp add: example_externals_def)
  show ?thesis
    unfolding rp_main_def stage_bind_def Let_def
    by (simp add: v f h t d stage_of_def)
qed

text \<open>
  Claim C3 (the last step of both entry points is the deduplication, taken as the
  specification describes it): whenever \<^verbatim>\<open>main_function\<close> of either path returns a
  pair, \<^verbatim>\<open>peak_labels\<close> has one entry per input peak and every entry is \<open>-1\<close> or an
  element of \<^verbatim>\<open>labels\<close>.
\<close>

theorem main_function_label_validity:
  assumes "snd (circus_main ext prm rec peaks g) = Inr (labels, peak_labels)
           \<or> snd (rp_main ext prm rec peaks g) = Inr (labels, peak_labels)"
  shows "length peak_labels = length peaks \<and>
         (\<forall>i<length peaks. peak_labels ! i = -1 \<or> peak_labels ! i \<in> set labels)"
proof -
  from assms have "length peak_labels = length peaks \<and>
      (\<forall>x\<in>set peak_labels. x = -1 \<or> x \<in> set labels)"
    using circus_main_Inr [of ext prm rec peaks g labels peak_labels]
      rp_main_Inr [of ext prm rec peaks g labels peak_labels] by blast
  then show ?thesis by (metis nth_mem)
qed

text \<open>Witness for C3: both entry points on the three example peaks.\<close>

theorem main_function_label_validity_witness:
  "snd (circus_main example_externals example_params example_recording example_peaks 7)
     = Inr ([0, 1], [0, 1, 0])
   \<and> snd (rp_main example_externals example_params example_recording example_peaks 7)
     = Inr ([0], [0, 0, 0])
   \<and> length [0, 1, 0 :: int] = length example_peaks
   \<and> ([0, 1, 0] ! 1 = (- 1 :: int) \<or> [0, 1, 0] ! 1 \<in> set [0, 1 :: int])
   \<and> ([0, 0, 0] ! 2 = (- 1 :: int) \<or> [0, 0, 0] ! 2 \<in> set [0 :: int])"
proof -
  have a: "snd (circus_main example_externals example_params example_recording example_peaks 7)
     = Inr ([0, 1], [0, 1, 0])"
    by (simp add: circus_example)
  have b: "snd (rp_main example_externals example_params example_recording example_peaks 7)
     = Inr ([0], [0, 0, 0])"
    by (simp add: rp_example)
  have l: "length example_peaks = 3" by (simp add: example_peaks_def)
  from main_function_label_validity [OF disjI1 [OF a]]
       main_function_label_validity [OF disjI2 [OF b]] a b l
  show ?thesis by simp
qed

section \<open>Window sizes: results\<close>

text \<open>
  The rounding is the one of binary64: \<open>ilog2 x\<close> is the binary exponent of \<open>x\<close>,
  a normal number is rounded to a significand of 53 bits, the rounding error is at most
  half a unit in the last place, and the sign is kept.
\<close>

lemma quotient_pos:
  assumes "x \<noteq> 0"
  shows "0 < fst (quotient_of \<bar>x\<bar>) \<and> 0 < snd (quotient_of \<bar>x\<bar>)
         \<and> \<bar>x\<bar> = of_int (fst (quotient_of \<bar>x\<bar>)) / of_int (snd (quotient_of \<bar>x\<bar>))"
proof -
  obtain p q where pq: "quotient_of \<bar>x\<bar> = (p, q)" by (cases "quotient_of \<bar>x\<bar>")
  have q: "0 < q" using quotient_of_denom_pos [OF pq] .
  have e: "\<bar>x\<bar> = of_int p / of_int q" using quotient_of_div [OF pq] .
  have "0 < \<bar>x\<bar>" using assms by simp
  then have "0 < p" using e q by (simp add: zero_less_divide_iff)
  then show ?thesis using q e pq by simp
qed

lemma bitlen_powi:
  assumes "0 < n"
  shows "(2::rat) powi (bitlen n - 1) \<le> of_int n \<and> (of_int n :: rat) < 2 powi (bitlen n)"
proof -
  from bitlen_bounds [OF assms] have b: "2 ^ nat (bitlen n - 1) \<le> n" "n < 2 ^ nat (bitlen n)"
    by simp_all
  have pos: "0 < bitlen n"
    using assms bitlen_nonneg [of "n div 2"] by (subst compute_bitlen) simp
  have l: "(2::rat) powi (bitlen n - 1) = of_int (2 ^ nat (bitlen n - 1))"
    using pos by (simp add: power_int_def)
  have u: "(2::rat) powi (bitlen n) = of_int (2 ^ nat (bitlen n))"
    using pos by (simp add: power_int_def)
  show ?thesis unfolding l u using b by (simp only: of_int_le_iff of_int_less_iff)
qed

lemma ilog2_bounds:
  assumes "x \<noteq> 0"
  shows "2 powi (ilog2 x) \<le> \<bar>x\<bar> \<and> \<bar>x\<bar> < 2 powi (ilog2 x + 1)"
proof -
  define p where "p = fst (quotient_of \<bar>x\<bar>)"
  define q where "q = snd (quotient_of \<bar>x\<bar>)"
  define d where "d = bitlen p - bitlen q"
  from quotient_pos [OF assms] have p: "0 < p" and q: "0 < q"
    and x: "\<bar>x\<bar> = of_int p / of_int q"
    by (simp_all add: p_def q_def)
  note P = bitlen_powi [OF p] and Q = bitlen_powi [OF q]
  have qr: "(0::rat) < of_int q" using q by simp
  have lo: "(2::rat) powi (d - 1) < \<bar>x\<bar>"
  proof -
    have "(2::rat) powi (d - 1) = 2 powi (bitlen p - 1) / 2 powi (bitlen q)"
      by (simp add: d_def power_int_diff)
    also have "\<dots> < of_int p / of_int q"
      using P Q qr by (intro frac_less2) auto
    finally show ?thesis using x by simp
  qed
  have hi: "\<bar>x\<bar> < (2::rat) powi (d + 1)"
  proof -
    have "\<bar>x\<bar> = of_int p / of_int q" by (rule x)
    also have "\<dots> < 2 powi (bitlen p) / 2 powi (bitlen q - 1)"
      using P Q p q by (intro frac_less) auto
    also have "\<dots> = 2 powi (d + 1)"
    proof -
      have e: "d + 1 = bitlen p - (bitlen q - 1)" by (simp add: d_def)
      show ?thesis unfolding e by (subst power_int_diff) simp_all
    qed
    finally show ?thesis .
  qed
  have i: "ilog2 x = (if \<bar>x\<bar> < 2 powi d then d - 1 else d)"
    by (simp add: ilog2_def Let_def p_def q_def d_def)
  show ?thesis
  proof (cases "\<bar>x\<bar> < 2 powi d")
    case True
    then show ?thesis using lo i by simp
  next
    case False
    then show ?thesis using hi i by simp
  qed
qed

lemma round_half_even_nonneg: "0 \<le> x \<Longrightarrow> 0 \<le> round_half_even x"
  by (auto simp: round_half_even_def Let_def)

lemma round_half_even_error: "\<bar>of_int (round_half_even x) - x\<bar> \<le> 1 / 2"
  unfolding round_half_even_def Let_def
  by (auto simp: abs_if) linarith+

lemma ulp_pos: "0 < ulp x"
  by (simp add: ulp_def)

lemma round_double_nonneg: "0 \<le> x \<Longrightarrow> 0 \<le> round_double x"
  using ulp_pos [of x] by (simp add: round_double_def round_half_even_nonneg)

lemma round_double_error: "\<bar>round_double x - x\<bar> \<le> ulp x / 2"
proof (cases "x = 0")
  case True
  then show ?thesis using ulp_pos [of 0] by (simp add: round_double_def)
next
  case False
  have u: "0 < ulp x" by (rule ulp_pos)
  have "round_double x - x = (of_int (round_half_even (x / ulp x)) - x / ulp x) * ulp x"
    using False u by (simp add: round_double_def algebra_simps)
  then have "\<bar>round_double x - x\<bar> = \<bar>of_int (round_half_even (x / ulp x)) - x / ulp x\<bar> * ulp x"
    using u by (simp add: abs_mult)
  also have "\<dots> \<le> (1 / 2) * ulp x"
    using round_half_even_error [of "x / ulp x"] u by (intro mult_right_mono) auto
  finally show ?thesis by simp
qed

lemma significand_bounds:
  assumes "x \<noteq> 0" and "- 1022 \<le> ilog2 x"
  shows "2 ^ 52 \<le> \<bar>x / ulp x\<bar> \<and> \<bar>x / ulp x\<bar> < 2 ^ 53"
proof -
  have u: "ulp x = 2 powi (ilog2 x - 52)" using assms(2) by (simp add: ulp_def max_def)
  have a: "\<bar>x / ulp x\<bar> = \<bar>x\<bar> / 2 powi (ilog2 x - 52)" by (simp add: u)
  have l: "(2::rat) powi (ilog2 x) / 2 powi (ilog2 x - 52) = 2 ^ 52"
    by (simp add: power_int_diff)
  have h: "(2::rat) powi (ilog2 x + 1) / 2 powi (ilog2 x - 52) = 2 ^ 53"
    by (simp add: power_int_diff power_int_add)
  have pos: "(0::rat) < 2 powi (ilog2 x - 52)" by simp
  from ilog2_bounds [OF assms(1)] pos
  have "2 powi (ilog2 x) / 2 powi (ilog2 x - 52) \<le> \<bar>x\<bar> / 2 powi (ilog2 x - 52)"
    and "\<bar>x\<bar> / 2 powi (ilog2 x - 52) < 2 powi (ilog2 x + 1) / 2 powi (ilog2 x - 52)"
    by (simp_all add: divide_right_mono divide_strict_right_mono)
  then show ?thesis unfolding a l h by simp
qed

lemma powi_less_imp: "(2::rat) powi a < 2 powi b \<Longrightarrow> a < b"
  using power_int_increasing [of b a "2::rat"] by (cases "a < b") auto

lemma powi_le_imp: "(2::rat) powi a \<le> 2 powi b \<Longrightarrow> a \<le> b"
  using power_int_strict_increasing [of b a "2::rat"] by (cases "a \<le> b") auto

lemma ilog2_unique:
  assumes "x \<noteq> 0" and "2 powi e \<le> \<bar>x\<bar>" and "\<bar>x\<bar> < 2 powi (e + 1)"
  shows "ilog2 x = e"
proof -
  from ilog2_bounds [OF assms(1)] have b: "2 powi (ilog2 x) \<le> \<bar>x\<bar>" "\<bar>x\<bar> < 2 powi (ilog2 x + 1)"
    by simp_all
  have "(2::rat) powi (ilog2 x) < 2 powi (e + 1)" using b(1) assms(3) by simp
  then have 1: "ilog2 x < e + 1" by (rule powi_less_imp)
  have "(2::rat) powi e < 2 powi (ilog2 x + 1)" using b(2) assms(2) by simp
  then have 2: "e < ilog2 x + 1" by (rule powi_less_imp)
  from 1 2 show ?thesis by simp
qed

lemma round_half_even_of_int: "round_half_even (of_int n) = n"
  by (simp add: round_half_even_def)

lemma round_half_even_floor_ceiling: "\<lfloor>x\<rfloor> \<le> round_half_even x \<and> round_half_even x \<le> \<lceil>x\<rceil>"
  unfolding round_half_even_def Let_def
  by (auto simp: ceiling_def) linarith+

lemma round_half_even_abs_bounds:
  assumes "of_int a \<le> \<bar>x\<bar>" and "\<bar>x\<bar> \<le> of_int b"
  shows "a \<le> \<bar>round_half_even x\<bar> \<and> \<bar>round_half_even x\<bar> \<le> b"
proof (cases "0 \<le> x")
  case True
  then have "a \<le> \<lfloor>x\<rfloor>" "\<lceil>x\<rceil> \<le> b" using assms by (simp_all add: le_floor_iff ceiling_le_iff)
  moreover have "0 \<le> round_half_even x" using True by (rule round_half_even_nonneg)
  ultimately show ?thesis using round_half_even_floor_ceiling [of x] by simp
next
  case False
  then have x: "of_int a \<le> - x" "- x \<le> of_int b" using assms by simp_all
  then have "\<lceil>x\<rceil> \<le> - a" "- b \<le> \<lfloor>x\<rfloor>"
    by (simp_all add: le_floor_iff ceiling_le_iff)
  moreover have "\<lceil>x\<rceil> \<le> 0" using False by (simp add: ceiling_le_iff)
  then have "round_half_even x \<le> 0"
    using round_half_even_floor_ceiling [of x] by linarith
  ultimately show ?thesis using round_half_even_floor_ceiling [of x] by simp
qed

lemma round_double_fixed:
  assumes "n \<noteq> 0" and "r = of_int n * u" and "ulp r = u"
  shows "round_double r = r"
proof -
  have u: "0 < u" using ulp_pos [of r] assms(3) by simp
  then have r0: "r \<noteq> 0" using assms(1,2) by simp
  have q: "r / u = of_int n" using u assms(2) by simp
  have "round_double r = of_int (round_half_even (r / ulp r)) * ulp r"
    using r0 by (simp add: round_double_def)
  also have "\<dots> = of_int n * u" unfolding assms(3) q round_half_even_of_int ..
  finally show ?thesis using assms(2) by simp
qed

lemma round_double_idem: "round_double (round_double x) = round_double x"
proof (cases "x = 0")
  case True
  then show ?thesis by (simp add: round_double_def)
next
  case False
  define n where "n = round_half_even (x / ulp x)"
  define r where "r = round_double x"
  have r: "r = of_int n * ulp x" using False by (simp add: r_def n_def round_double_def)
  have u: "0 < ulp x" by (rule ulp_pos)
  show ?thesis
  proof (cases "n = 0")
    case True
    then have z: "round_double x = 0" using r by (simp add: r_def)
    show ?thesis unfolding z by (simp add: round_double_def)
  next
    case n0: False
    then have r0: "r \<noteq> 0" using r u by simp
    show ?thesis
    proof (cases "- 1022 \<le> ilog2 x")
      case normal: True
      define e where "e = ilog2 x"
      have ux: "ulp x = 2 powi (e - 52)" using normal by (simp add: ulp_def e_def max_def)
      from significand_bounds [OF False normal]
      have "of_int (2 ^ 52) \<le> \<bar>x / ulp x\<bar>" "\<bar>x / ulp x\<bar> \<le> of_int (2 ^ 53)" by simp_all
      from round_half_even_abs_bounds [OF this]
      have nb: "2 ^ 52 \<le> \<bar>n\<bar>" "\<bar>n\<bar> \<le> 2 ^ 53" by (simp_all add: n_def)
      have ar: "\<bar>r\<bar> = of_int \<bar>n\<bar> * 2 powi (e - 52)" by (simp add: r ux abs_mult)
      have lo: "2 powi e \<le> \<bar>r\<bar>"
      proof -
        have "(2::rat) powi e = 2 ^ 52 * 2 powi (e - 52)" by (simp add: power_int_diff)
        also have "\<dots> \<le> of_int \<bar>n\<bar> * 2 powi (e - 52)"
          using nb(1) by (intro mult_right_mono) (simp_all add: numeral_power_le_of_int_cancel_iff)
        finally show ?thesis by (simp add: ar)
      qed
      show ?thesis
      proof (cases "\<bar>n\<bar> < 2 ^ 53")
        case True
        have "\<bar>r\<bar> < 2 ^ 53 * 2 powi (e - 52)"
          unfolding ar using True by (intro mult_strict_right_mono) (simp_all add: of_int_less_numeral_power_cancel_iff)
        also have "\<dots> = 2 powi (e + 1)" by (simp add: power_int_diff power_int_add)
        finally have "ilog2 r = e" using ilog2_unique [OF r0 lo] by simp
        then have "ulp r = ulp x" by (simp add: ulp_def e_def)
        from round_double_fixed [OF n0 r this] show ?thesis by (simp add: r_def)
      next
        case False
        then have n53: "\<bar>n\<bar> = 2 ^ 53" using nb(2) by simp
        have ar2: "\<bar>r\<bar> = 2 powi (e + 1)"
          unfolding ar n53 by (simp add: power_int_diff power_int_add)
        have "ilog2 r = e + 1"
          by (rule ilog2_unique [OF r0]) (simp_all add: ar2 power_int_add)
        then have u2: "ulp r = 2 * ulp x"
          using normal by (simp add: ulp_def e_def max_def power_int_diff power_int_add)
        define m where "m = n div 2"
        from n53 have "n = 2 ^ 53 \<or> n = - (2 ^ 53)" by linarith
        then have ev: "n = 2 * m" unfolding m_def by (elim disjE) simp_all
        have m0: "m \<noteq> 0" using ev n0 by simp
        have "r = of_int m * (2 * ulp x)" by (simp add: r ev)
        from round_double_fixed [OF m0 this u2] show ?thesis by (simp add: r_def)
      qed
    next
      case sub: False
      have ux: "ulp x = 2 powi (- 1074)" using sub by (simp add: ulp_def max_def)
      have "\<bar>x\<bar> < 2 powi (ilog2 x + 1)" using ilog2_bounds [OF False] by simp
      also have "\<dots> \<le> 2 powi (- 1022)" using sub by (intro power_int_increasing) simp_all
      finally have "\<bar>x / ulp x\<bar> < 2 powi (- 1022) / 2 powi (- 1074)"
        by (simp add: ux divide_strict_right_mono)
      also have "\<dots> = 2 ^ 52" by (simp add: power_int_def field_simps)
      finally have "of_int 0 \<le> \<bar>x / ulp x\<bar>" "\<bar>x / ulp x\<bar> \<le> of_int (2 ^ 52)" by simp_all
      from round_half_even_abs_bounds [OF this]
      have nb: "\<bar>n\<bar> \<le> 2 ^ 52" by (simp add: n_def)
      have "\<bar>r\<bar> = of_int \<bar>n\<bar> * 2 powi (- 1074)" by (simp add: r ux abs_mult)
      also have "\<dots> \<le> 2 ^ 52 * 2 powi (- 1074)"
        using nb by (intro mult_right_mono) (simp_all add: of_int_le_numeral_power_cancel_iff)
      also have "\<dots> = 2 powi (- 1022)" by (simp add: power_int_def field_simps)
      finally have "\<bar>r\<bar> \<le> 2 powi (- 1022)" .
      then have "(2::rat) powi (ilog2 r) \<le> 2 powi (- 1022)"
        using ilog2_bounds [OF r0] by simp
      then have "ilog2 r \<le> - 1022" by (rule powi_le_imp)
      then have "ulp r = ulp x" using sub by (simp add: ulp_def max_def)
      from round_double_fixed [OF n0 r this] show ?thesis by (simp add: r_def)
    qed
  qed
qed

lemma round_double_nonpos: "x \<le> 0 \<Longrightarrow> round_double x \<le> 0"
proof -
  assume x: "x \<le> 0"
  have "x / ulp x \<le> 0" using x ulp_pos [of x] by (simp add: divide_le_0_iff)
  then have "\<lceil>x / ulp x\<rceil> \<le> 0" by (simp add: ceiling_le_iff)
  then have "round_half_even (x / ulp x) \<le> 0"
    using round_half_even_floor_ceiling [of "x / ulp x"] by linarith
  then show ?thesis
    using ulp_pos [of x] by (simp add: round_double_def mult_le_0_iff)
qed

lemma float_mul_nonneg: "0 \<le> x * y \<Longrightarrow> 0 \<le> float_mul x y"
proof -
  assume "0 \<le> x * y"
  then consider "0 \<le> x" "0 \<le> y" | "x \<le> 0" "y \<le> 0"
    by (auto simp: zero_le_mult_iff)
  then have "0 \<le> py_float x * py_float y"
  proof cases
    case 1
    then show ?thesis by (simp add: py_float_def round_double_nonneg)
  next
    case 2
    then show ?thesis by (simp add: py_float_def round_double_nonpos mult_nonpos_nonpos)
  qed
  then show ?thesis by (simp add: float_mul_def round_double_nonneg)
qed

lemma float_quotient_nonneg: "0 \<le> x * y \<Longrightarrow> 0 \<le> float_div (float_mul x y) 1000"
proof -
  assume "0 \<le> x * y"
  then have "0 \<le> py_float (float_mul x y)"
    by (simp add: py_float_def round_double_nonneg float_mul_nonneg)
  moreover have "0 \<le> py_float 1000" by (simp add: py_float_def round_double_nonneg)
  ultimately show ?thesis by (simp add: float_div_def round_double_nonneg)
qed

text \<open>A double is left as it is by the conversion.\<close>

lemma py_float_double: "py_float (py_float x) = py_float x"
  by (simp add: py_float_def round_double_idem)

lemma py_int_nonneg: "0 \<le> x \<Longrightarrow> py_int x = \<lfloor>x\<rfloor>"
  by (simp add: py_int_def)

lemma spec_round_eq_floor_iff:
  "spec_round x = \<lfloor>x\<rfloor> \<longleftrightarrow> frac x < 1 / 2 \<or> (frac x = 1 / 2 \<and> even \<lfloor>x\<rfloor>)"
  by (auto simp: spec_round_def round_half_even_def frac_def Let_def)

text \<open>
  The two roundings show in the sample counts. The decimal \<^verbatim>\<open>4.1\<close> is no double; the
  double it denotes is a little less, and 4.1 ms at 30 kHz are 122 samples, where the
  quotient of the decimals has the floor 123. The double of \<^verbatim>\<open>0.3\<close> is below 3/10
  as well, but its product with 30000 rounds up to 9000, and 0.3 ms are 9 samples where
  the exact quotient of the doubles has the floor 8. 4.6 ms at 25 kHz are 114 samples.
\<close>

lemma window_samples_double_rounding:
  "window_samples 4.1 0.3 30000 = (122, 9, 131)
   \<and> \<lfloor>(4.1 :: rat) * 30000 / 1000\<rfloor> = 123
   \<and> \<lfloor>py_float 0.3 * 30000 / 1000\<rfloor> = 8
   \<and> fst (window_samples 4.6 4.6 25000) = 114
   \<and> py_float 4.1 = 2308094809027379 / 562949953421312
   \<and> py_float 0.3 = 5404319552844595 / 18014398509481984"
  by code_simp

text \<open>
  Claim C5, as stated, fails: at 25 kHz a window of 0.75 ms is 18.75 samples; the code
  keeps 18 of them, the specification's \<^verbatim>\<open>round\<close> gives 19. All numbers involved
  are doubles, and both the product 18750 and the quotient 18.75 are exact.
\<close>

theorem window_samples_round_counterexample:
  "window_samples 0.75 0.75 25000 = (18, 18, 36) \<and>
   spec_window_samples 0.75 0.75 25000 = (19, 19, 38)"
  by code_simp

text \<open>
  Claim C5, amended. For a non-negative window within the range of the doubles, the
  sample counts are the float value of \<^verbatim>\<open>ms * fs / 1000.0\<close> (the product rounded
  to a double, the quotient rounded again) truncated: \<^verbatim>\<open>nbefore\<close> is the floor of
  that double, the same for \<^verbatim>\<open>nafter\<close>, and \<^verbatim>\<open>num_samples\<close> is their sum. All
  three are fixed by the two window parameters and the sampling frequency, hence
  constant within one clustering or template-estimation pass. The truncated count
  agrees with the rounded one exactly when the fractional part of the double quotient
  is below one half (or is one half and the integer part is even).
\<close>

theorem window_samples_truncates:
  assumes "0 \<le> before_ms * fs" and "0 \<le> after_ms * fs"
    and "window_in_range before_ms fs" and "window_in_range after_ms fs"
  shows "window_samples before_ms after_ms fs =
           (\<lfloor>float_div (float_mul before_ms fs) 1000\<rfloor>,
            \<lfloor>float_div (float_mul after_ms fs) 1000\<rfloor>,
            \<lfloor>float_div (float_mul before_ms fs) 1000\<rfloor>
              + \<lfloor>float_div (float_mul after_ms fs) 1000\<rfloor>)
         \<and> snd (snd (window_samples before_ms after_ms fs))
             = fst (window_samples before_ms after_ms fs)
               + fst (snd (window_samples before_ms after_ms fs))
         \<and> ((fst (window_samples before_ms after_ms fs)
               = spec_round (float_div (float_mul before_ms fs) 1000))
              = (frac (float_div (float_mul before_ms fs) 1000) < 1 / 2
                 \<or> (frac (float_div (float_mul before_ms fs) 1000) = 1 / 2
                     \<and> even \<lfloor>float_div (float_mul before_ms fs) 1000\<rfloor>)))"
proof -
  let ?qb = "float_div (float_mul before_ms fs) 1000"
  let ?qa = "float_div (float_mul after_ms fs) 1000"
  have b: "py_int ?qb = \<lfloor>?qb\<rfloor>"
    using assms(1) by (simp add: py_int_nonneg float_quotient_nonneg)
  have a: "py_int ?qa = \<lfloor>?qa\<rfloor>"
    using assms(2) by (simp add: py_int_nonneg float_quotient_nonneg)
  have w: "window_samples before_ms after_ms fs = (\<lfloor>?qb\<rfloor>, \<lfloor>?qa\<rfloor>, \<lfloor>?qb\<rfloor> + \<lfloor>?qa\<rfloor>)"
    by (simp add: window_samples_def Let_def a b)
  have r: "(\<lfloor>?qb\<rfloor> = spec_round ?qb) = (spec_round ?qb = \<lfloor>?qb\<rfloor>)"
    by (rule eq_commute)
  show ?thesis
    unfolding w fst_conv snd_conv r spec_round_eq_floor_iff by simp
qed

text \<open>
  Witness for the amended C5: 4.1 ms before and 0.3 ms after the peak at 30 kHz, the
  two windows of the lemma above.
\<close>

theorem window_samples_truncates_witness:
  "(0 :: rat) \<le> 4.1 * 30000 \<and> (0 :: rat) \<le> 0.3 * 30000
   \<and> window_in_range 4.1 30000 \<and> window_in_range 0.3 30000
   \<and> window_samples 4.1 0.3 30000 = (122, 9, 131)"
proof -
  have a: "(0 :: rat) \<le> 4.1 * 30000" "(0 :: rat) \<le> 0.3 * 30000"
    by simp_all
  have v: "py_float 4.1 = 2308094809027379 / 562949953421312"
    "py_float 0.3 = 5404319552844595 / 18014398509481984"
    "py_float 30000 = 30000"
    by code_simp+
  have d: "window_in_range 4.1 30000" "window_in_range 0.3 30000"
    unfolding window_in_range_def v double_finite_def by simp_all
  have f: "\<lfloor>float_div (float_mul 4.1 30000) 1000\<rfloor> = 122"
    "\<lfloor>float_div (float_mul 0.3 30000) 1000\<rfloor> = 9"
    by code_simp+
  from window_samples_truncates [OF a d] have
    "window_samples 4.1 0.3 30000 = (122, 9, 122 + 9)"
    unfolding f by simp
  with a d show ?thesis by simp
qed

section \<open>The projection matrix\<close>

lemma length_rng_normal: "length (rng_normal z loc scale (r, c)) = r"
  by (simp add: rng_normal_def)

lemma rng_normal_rows: "row \<in> set (rng_normal z loc scale (r, c)) \<Longrightarrow> length row = c"
  by (auto simp: rng_normal_def)

lemma rng_normal_nth:
  "i < r \<Longrightarrow> j < c \<Longrightarrow> rng_normal z loc scale (r, c) ! i ! j = loc + scale * z (i * c + j)"
  by (simp add: rng_normal_def)

lemma projection_scale_variance:
  "0 < num_channels rec \<Longrightarrow> (projection_scale rec)\<^sup>2 = 1 / real (num_channels rec)"
  by (simp add: projection_scale_def power_divide)

text \<open>
  Claim C7, as stated, fails: with the configured \<^verbatim>\<open>nb_projections = 10\<close> and a
  recording of four channels, line 88 takes \<^verbatim>\<open>min(num_chans, nb_projections) = 4\<close>
  projections; the matrix is 4 by 4 and a feature vector has 4 entries, not 10.
\<close>

theorem projections_shape_counterexample:
  "nb_projections example_params = 10
   \<and> num_channels four_channel_recording = 4
   \<and> map length (projections example_draws four_channel_recording example_params) = [4, 4, 4, 4]
   \<and> length (random_projections_feature (num_projections four_channel_recording example_params)
        (projections example_draws four_channel_recording example_params) [1, 2, 3, 4]) = 4"
  by (simp add: example_params_def four_channel_recording_def projections_def rng_normal_def
      num_projections_def random_projections_feature_def upt_rec)

text \<open>
  Claim C7, amended. The projection matrix has \<^verbatim>\<open>num_channels\<close> rows of
  \<^verbatim>\<open>num_projections = min(num_channels, nb_projections)\<close> entries; entry \<open>(i, j)\<close> is
  the draw number \<open>i * num_projections + j\<close> of the seeded generator times the scale
  \<open>1 / sqrt num_channels\<close>, whose square is the variance \<open>1 / num_channels\<close>; a
  feature vector with one entry per column of the matrix has \<^verbatim>\<open>num_projections\<close>
  entries, and that is the configured \<^verbatim>\<open>nb_projections\<close> exactly when
  \<^verbatim>\<open>nb_projections\<close> does not exceed the number of channels.
\<close>

theorem projections_shape:
  "length (projections rng rec prm) = num_channels rec
   \<and> (\<forall>row\<in>set (projections rng rec prm).
         length row = min (num_channels rec) (nb_projections prm))
   \<and> (\<forall>i<num_channels rec. \<forall>j<num_projections rec prm.
         projections rng rec prm ! i ! j
           = projection_scale rec * rng (i * num_projections rec prm + j))
   \<and> (0 < num_channels rec \<longrightarrow> (projection_scale rec)\<^sup>2 = 1 / real (num_channels rec))
   \<and> length (random_projections_feature (num_projections rec prm) (projections rng rec prm) v)
       = min (num_channels rec) (nb_projections prm)
   \<and> ((num_projections rec prm = nb_projections prm)
       = (nb_projections prm \<le> num_channels rec))"
proof -
  have "length (projections rng rec prm) = num_channels rec"
    by (simp add: projections_def length_rng_normal)
  moreover have "\<forall>row\<in>set (projections rng rec prm).
         length row = min (num_channels rec) (nb_projections prm)"
    by (auto simp: projections_def num_projections_def dest: rng_normal_rows)
  moreover have "\<forall>i<num_channels rec. \<forall>j<num_projections rec prm.
         projections rng rec prm ! i ! j
           = projection_scale rec * rng (i * num_projections rec prm + j)"
    by (simp add: projections_def rng_normal_nth)
  moreover have "length (random_projections_feature (num_projections rec prm)
                   (projections rng rec prm) v) = min (num_channels rec) (nb_projections prm)"
    by (simp add: random_projections_feature_def num_projections_def)
  moreover have "(num_projections rec prm = nb_projections prm)
       = (nb_projections prm \<le> num_channels rec)"
    by (auto simp: num_projections_def)
  ultimately show ?thesis using projection_scale_variance by blast
qed

text \<open>Witness for the amended C7: four channels, ten configured projections.\<close>

theorem projections_shape_witness:
  "length (projections example_draws four_channel_recording example_params) = 4
   \<and> projections example_draws four_channel_recording example_params ! 1 ! 2 = 1 / 2 * 6
   \<and> (0::nat) < num_channels four_channel_recording
   \<and> (projection_scale four_channel_recording)\<^sup>2 = 1 / 4
   \<and> num_projections four_channel_recording example_params \<noteq> nb_projections example_params"
proof -
  have n: "num_channels four_channel_recording = 4" "nb_projections example_params = 10"
    by (simp_all add: four_channel_recording_def example_params_def)
  have p: "num_projections four_channel_recording example_params = 4"
    by (simp add: num_projections_def n)
  have s: "projection_scale four_channel_recording = 1 / 2"
    by (simp add: projection_scale_def n)
  note shape = projections_shape [of example_draws four_channel_recording example_params "[]"]
  from shape have len: "length (projections example_draws four_channel_recording example_params) = 4"
    unfolding n by blast
  from shape have ent: "\<And>i j. i < num_channels four_channel_recording
        \<Longrightarrow> j < num_projections four_channel_recording example_params
        \<Longrightarrow> projections example_draws four_channel_recording example_params ! i ! j
              = projection_scale four_channel_recording
                  * example_draws (i * num_projections four_channel_recording example_params + j)"
    by blast
  have e12: "projections example_draws four_channel_recording example_params ! 1 ! 2 = 1 / 2 * 6"
    using ent [of 1 2] by (simp add: n p s example_draws_def)
  from shape have var: "(projection_scale four_channel_recording)\<^sup>2 = 1 / 4"
    unfolding n by simp
  from shape have "num_projections four_channel_recording example_params
                     \<noteq> nb_projections example_params"
    unfolding n by simp
  with len e12 var n show ?thesis by simp
qed

section \<open>An empty peak array\<close>

lemma returns_normallyD:
  assumes "returns_normally m"
  obtains g' x where "m g = (g', Inr x)"
  using assms unfolding returns_normally_def by (metis prod.collapse)

lemma empty_templates_dedup:
  "remove_duplicates_via_matching nd
     (remove_empty_templates (to_sparse (dense_templates rec [] []) [])) [] = ([], [])"
  by (simp add: remove_duplicates_via_matching_def remove_empty_templates_def to_sparse_def
      dense_templates_def take_masked_def np_unique_def)

lemma labelled_spikes_empty: "labelled_spikes [] [] = Inr []"
  by (simp add: labelled_spikes_def bool_index_def take_masked_def)

lemma arange_units_empty: "arange_units [] = []"
  by (simp add: arange_units_def np_unique_def)

lemma circus_clustering_empty: "circus_clustering ext [] dat g = (g, Inr ([], 0))"
  by (simp add: circus_clustering_def np_unique_def)

lemma circus_templates_empty:
  "circus_templates ext prm rec [] [] g = (g', Inr (t, pl))
     \<Longrightarrow> t = remove_empty_templates (to_sparse (dense_templates rec [] []) []) \<and> pl = []"
  unfolding circus_templates_def stage_bind_def stage_of_def Let_def circus_prune_def
  by (auto split: prod.splits sum.splits
           simp: labelled_spikes_empty arange_units_empty dense_templates_def)

lemma circus_templates_empty_returns:
  assumes "\<forall>a b. returns_normally (estimate_templates ext rec [] [] a b)"
    and "returns_normally (resolve_noise_levels ext prm rec)"
  shows "snd (circus_templates ext prm rec [] [] g)
           = Inr (remove_empty_templates (to_sparse (dense_templates rec [] []) []), [])"
proof -
  let ?w = "window_samples (waveforms_ms_before prm) (waveforms_ms_after prm) (sampling_frequency rec)"
  from assms(1) have "returns_normally (estimate_templates ext rec [] [] (fst ?w) (fst (snd ?w)))"
    by blast
  then obtain g1 est where
    e: "estimate_templates ext rec [] [] (fst ?w) (fst (snd ?w)) g = (g1, Inr est)"
    by (rule returns_normallyD)
  from assms(2) obtain g2 nl where n: "resolve_noise_levels ext prm rec g1 = (g2, Inr nl)"
    by (rule returns_normallyD)
  show ?thesis
    unfolding circus_templates_def stage_bind_def Let_def circus_prune_def
    by (simp add: labelled_spikes_empty arange_units_empty stage_of_def e n dense_templates_def)
qed

lemma circus_main_empty:
  assumes "snd (circus_main ext prm rec [] g) = Inr (labels, pl)"
  shows "labels = [] \<and> pl = []"
  using assms
  unfolding circus_main_def stage_bind_def stage_of_def Let_def
  by (auto split: prod.splits sum.splits if_splits
           simp: circus_clustering_empty empty_templates_dedup
           dest!: circus_templates_empty)

lemma circus_main_empty_returns:
  assumes "circus_accepts_empty ext prm rec"
  shows "snd (circus_main ext prm rec [] g) = Inr ([], [])"
proof -
  from assms have h: "HAVE_HDBSCAN ext"
    and f: "returns_normally (extract_svd_features ext rec [])"
    and t: "\<forall>a b. returns_normally (estimate_templates ext rec [] [] a b)"
           "returns_normally (resolve_noise_levels ext prm rec)"
    by (simp_all add: circus_accepts_empty_def)
  from f obtain g1 dat where
    d: "extract_svd_features ext rec [] (np_random_seed ext (random_seed prm)) = (g1, Inr dat)"
    by (rule returns_normallyD)
  obtain g2 where
    c: "circus_templates ext prm rec [] [] g1
          = (g2, Inr (remove_empty_templates (to_sparse (dense_templates rec [] []) []), []))"
    using circus_templates_empty_returns [OF t, of g1] by (metis prod.collapse)
  show ?thesis
    unfolding circus_main_def stage_bind_def Let_def
    by (simp add: h d c circus_clustering_empty stage_of_def empty_templates_dedup)
qed

lemma circus_main_empty_raises:
  assumes "HAVE_HDBSCAN ext"
    and "snd (extract_svd_features ext rec [] (np_random_seed ext (random_seed prm))) = Inl e"
  shows "snd (circus_main ext prm rec [] g) = Inl e"
  using assms unfolding circus_main_def stage_bind_def Let_def
  by (auto split: prod.splits sum.splits)

lemma valid_templates_of_empty:
  "valid_templates_of nbefore nafter noise thr []
     = (if sample_axis_ok nbefore nafter then Inr [] else Inl IndexError)"
  by (simp add: valid_templates_of_def peak_rows_def)

lemma rp_prune_empty:
  "rp_prune rec rule [] [] [] [] =
     (remove_empty_templates (to_sparse (dense_templates rec [] []) []), [])"
  by (simp add: rp_prune_def Let_def take_masked_def dense_templates_def to_sparse_def
      rp_reset_labels_def fill_masked_def isin_def)

lemma rp_templates_empty:
  "rp_templates ext prm rec [] pl g = (g', Inr (t, pl'))
     \<Longrightarrow> t = remove_empty_templates (to_sparse (dense_templates rec [] []) []) \<and> pl' = []"
proof -
  assume a: "rp_templates ext prm rec [] pl g = (g', Inr (t, pl'))"
  from rp_templates_pair [OF this] have pl: "pl = []" by simp
  from a show ?thesis
    unfolding pl rp_templates_def stage_bind_def stage_of_def Let_def
    by (auto split: prod.splits sum.splits if_splits
             simp: labelled_spikes_empty arange_units_empty rp_prune_empty
                   valid_templates_of_empty)
qed

lemma rp_templates_empty_returns:
  assumes "\<forall>a b. returns_normally (estimate_templates ext rec [] [] a b)"
    and "returns_normally (resolve_noise_levels ext prm rec)"
    and "sample_axis_ok
        (fst (window_samples (waveforms_ms_before prm) (waveforms_ms_after prm)
                (sampling_frequency rec)))
        (fst (snd (window_samples (waveforms_ms_before prm) (waveforms_ms_after prm)
                (sampling_frequency rec))))"
  shows "snd (rp_templates ext prm rec [] [] g)
           = Inr (remove_empty_templates (to_sparse (dense_templates rec [] []) []), [])"
proof -
  let ?w = "window_samples (waveforms_ms_before prm) (waveforms_ms_after prm) (sampling_frequency rec)"
  from assms(2) obtain g1 nl where n: "resolve_noise_levels ext prm rec g = (g1, Inr nl)"
    by (rule returns_normallyD)
  from assms(1) have "returns_normally (estimate_templates ext rec [] [] (fst ?w) (fst (snd ?w)))"
    by blast
  then obtain g2 est where
    e: "estimate_templates ext rec [] [] (fst ?w) (fst (snd ?w)) g1 = (g2, Inr est)"
    by (rule returns_normallyD)
  show ?thesis
    unfolding rp_templates_def stage_bind_def Let_def
    by (simp add: labelled_spikes_empty arange_units_empty stage_of_def e n rp_prune_empty
        valid_templates_of_empty assms(3))
qed

text \<open>
  With no unit at all, line 148 still indexes the sample axis of the template array: a
  window that does not hold the sample \<^verbatim>\<open>nbefore\<close> ends the random-projection path
  with IndexError.
\<close>

lemma rp_templates_empty_window:
  assumes "\<forall>a b. returns_normally (estimate_templates ext rec [] [] a b)"
    and "returns_normally (resolve_noise_levels ext prm rec)"
    and "\<not> sample_axis_ok
        (fst (window_samples (waveforms_ms_before prm) (waveforms_ms_after prm)
                (sampling_frequency rec)))
        (fst (snd (window_samples (waveforms_ms_before prm) (waveforms_ms_after prm)
                (sampling_frequency rec))))"
  shows "snd (rp_templates ext prm rec [] [] g) = Inl IndexError"
proof -
  let ?w = "window_samples (waveforms_ms_before prm) (waveforms_ms_after prm) (sampling_frequency rec)"
  from assms(2) obtain g1 nl where n: "resolve_noise_levels ext prm rec g = (g1, Inr nl)"
    by (rule returns_normallyD)
  from assms(1) have "returns_normally (estimate_templates ext rec [] [] (fst ?w) (fst (snd ?w)))"
    by blast
  then obtain g2 est where
    e: "estimate_templates ext rec [] [] (fst ?w) (fst (snd ?w)) g1 = (g2, Inr est)"
    by (rule returns_normallyD)
  show ?thesis
    unfolding rp_templates_def stage_bind_def Let_def
    by (simp add: labelled_spikes_empty arange_units_empty stage_of_def e n
        valid_templates_of_empty assms(3))
qed

lemma rp_main_empty:
  assumes "snd (rp_main ext prm rec [] g) = Inr (labels, pl)"
  shows "labels = [] \<and> pl = []"
  using assms
  unfolding rp_main_def stage_bind_def stage_of_def Let_def
  by (auto split: prod.splits sum.splits if_splits
           simp: empty_templates_dedup dest!: rp_templates_empty)

lemma rp_main_empty_returns:
  assumes "rp_accepts_empty ext prm rec"
  shows "snd (rp_main ext prm rec [] g) = Inr ([], [])"
proof -
  let ?P = "projections (RandomState_normal ext (random_seed prm)) rec prm"
  from assms have h: "HAVE_HDBSCAN ext"
    and f: "\<exists>d. snd (extract_projection_features ext rec [] ?P g) = Inr d
                 \<and> (\<forall>g'. snd (hdbscan ext d g') = Inr [])"
    and t: "\<forall>a b. returns_normally (estimate_templates ext rec [] [] a b)"
           "returns_normally (resolve_noise_levels ext prm rec)"
           "sample_axis_ok
              (fst (window_samples (waveforms_ms_before prm) (waveforms_ms_after prm)
                      (sampling_frequency rec)))
              (fst (snd (window_samples (waveforms_ms_before prm) (waveforms_ms_after prm)
                      (sampling_frequency rec))))"
    by (simp_all add: rp_accepts_empty_def)
  from f obtain g1 d where
    d: "extract_projection_features ext rec [] ?P g = (g1, Inr d)"
       "\<forall>g'. snd (hdbscan ext d g') = Inr []"
    by (metis prod.collapse)
  from d(2) obtain g2 where c: "hdbscan ext d g1 = (g2, Inr [])" by (metis prod.collapse)
  obtain g3 where
    r: "rp_templates ext prm rec [] [] g2
          = (g3, Inr (remove_empty_templates (to_sparse (dense_templates rec [] []) []), []))"
    using rp_templates_empty_returns [OF t, of g2] by (metis prod.collapse)
  show ?thesis
    unfolding rp_main_def stage_bind_def Let_def
    by (simp add: h d(1) c r stage_of_def empty_templates_dedup)
qed

lemma rp_main_empty_raises:
  assumes "HAVE_HDBSCAN ext"
    and "extract_projection_features ext rec []
           (projections (RandomState_normal ext (random_seed prm)) rec prm) g = (g1, Inr d)"
    and "snd (hdbscan ext d g1) = Inl e"
  shows "snd (rp_main ext prm rec [] g) = Inl e"
  using assms unfolding rp_main_def stage_bind_def Let_def
  by (auto split: prod.splits sum.splits)

text \<open>
  Claim C8, as stated, fails. Neither entry point looks at the length of the peak
  array. With libraries that reject an array of zero samples, the first such call
  raises and the exception leaves \<^verbatim>\<open>main_function\<close>: the feature extraction with
  its SVD fit in the learned-subspace path (lines 106-114), hdbscan in the
  random-projection path (line 117).
\<close>

theorem empty_peaks_counterexample:
  "snd (circus_main strict_externals example_params example_recording [] 7) = Inl ValueError
   \<and> snd (rp_main strict_externals example_params example_recording [] 7) = Inl ValueError"
proof -
  have "snd (circus_main strict_externals example_params example_recording [] 7) = Inl ValueError"
    by code_simp
  moreover
  have "snd (rp_main strict_externals example_params example_recording [] 7) = Inl ValueError"
    by (simp add: rp_main_def stage_bind_def strict_externals_def example_externals_def)
  ultimately show ?thesis by simp
qed

text \<open>
  Claim C8, amended. For a peak array of length 0:
  \<^item> if an entry point returns, it returns empty \<^verbatim>\<open>labels\<close> and empty
    \<^verbatim>\<open>peak_labels\<close>;
  \<^item> it does return them when hdbscan is installed and every stage it calls accepts the
    empty input (\<open>circus_accepts_empty\<close>, \<open>rp_accepts_empty\<close>); in the
    random-projection path this includes line 148, which reads sample \<^verbatim>\<open>nbefore\<close>
    of the template array even when it holds no unit, so the template window must
    contain that sample (\<open>sample_axis_ok\<close>: \<^verbatim>\<open>nbefore < nbefore + nafter\<close>, that is
    \<^verbatim>\<open>nafter > 0\<close>, and \<^verbatim>\<open>nbefore\<close> no further below zero than the window is
    long); with a window that does not, the path raises IndexError;
  \<^item> there is no guard of its own: an exception of the feature extraction (learned
    subspace) or of hdbscan (random projections) on the empty input is the outcome of
    \<^verbatim>\<open>main_function\<close>.
\<close>

theorem empty_peaks_result:
  "(snd (circus_main ext prm rec [] g) = Inr (labels, peak_labels)
      \<or> snd (rp_main ext prm rec [] g) = Inr (labels, peak_labels)
      \<longrightarrow> labels = [] \<and> peak_labels = [])
   \<and> (circus_accepts_empty ext prm rec \<longrightarrow> snd (circus_main ext prm rec [] g) = Inr ([], []))
   \<and> (rp_accepts_empty ext prm rec \<longrightarrow> snd (rp_main ext prm rec [] g) = Inr ([], []))
   \<and> (HAVE_HDBSCAN ext
        \<and> snd (extract_svd_features ext rec [] (np_random_seed ext (random_seed prm))) = Inl e
      \<longrightarrow> snd (circus_main ext prm rec [] g) = Inl e)
   \<and> (HAVE_HDBSCAN ext
        \<and> extract_projection_features ext rec []
            (projections (RandomState_normal ext (random_seed prm)) rec prm) g = (g1, Inr d)
        \<and> snd (hdbscan ext d g1) = Inl e
      \<longrightarrow> snd (rp_main ext prm rec [] g) = Inl e)"
  using circus_main_empty [of ext prm rec g labels peak_labels]
    rp_main_empty [of ext prm rec g labels peak_labels]
    circus_main_empty_returns [of ext prm rec g]
    rp_main_empty_returns [of ext prm rec g]
    circus_main_empty_raises [of ext rec prm e g]
    rp_main_empty_raises [of ext rec prm g g1 d e]
  by blast

text \<open>
  Witness for the amended C8: the collaborators that accept the empty input give the
  empty pair, the strict ones give their ValueError.
\<close>

theorem empty_peaks_result_witness:
  "circus_accepts_empty example_externals example_params example_recording
   \<and> rp_accepts_empty example_externals example_params example_recording
   \<and> snd (circus_main example_externals example_params example_recording [] 7) = Inr ([], [])
   \<and> snd (rp_main example_externals example_params example_recording [] 7) = Inr ([], [])
   \<and> HAVE_HDBSCAN strict_externals
   \<and> snd (extract_svd_features strict_externals example_recording []
            (np_random_seed strict_externals (random_seed example_params))) = Inl ValueError
   \<and> snd (circus_main strict_externals example_params example_recording [] 7) = Inl ValueError
   \<and> snd (hdbscan strict_externals [] 7) = Inl ValueError
   \<and> snd (rp_main strict_externals example_params example_recording [] 7) = Inl ValueError"
proof -
  have n: "returns_normally (resolve_noise_levels example_externals example_params example_recording)"
    by (simp add: returns_normally_def resolve_noise_levels_def example_externals_def
        example_params_def)
  have w: "sample_axis_ok
        (fst (window_samples (waveforms_ms_before example_params)
                (waveforms_ms_after example_params) (sampling_frequency example_recording)))
        (fst (snd (window_samples (waveforms_ms_before example_params)
                (waveforms_ms_after example_params) (sampling_frequency example_recording))))"
    by code_simp
  have a: "circus_accepts_empty example_externals example_params example_recording"
    unfolding circus_accepts_empty_def using n
    by (simp add: returns_normally_def example_externals_def)
  have b: "rp_accepts_empty example_externals example_params example_recording"
    unfolding rp_accepts_empty_def using n w
    by (simp add: returns_normally_def example_externals_def)
  have h: "HAVE_HDBSCAN strict_externals"
    by (simp add: strict_externals_def example_externals_def)
  have f: "snd (extract_svd_features strict_externals example_recording []
            (np_random_seed strict_externals (random_seed example_params))) = Inl ValueError"
    by (simp add: strict_externals_def example_externals_def)
  have p: "extract_projection_features strict_externals example_recording []
            (projections (RandomState_normal strict_externals (random_seed example_params))
               example_recording example_params) 7 = (7, Inr [])"
    by (simp add: strict_externals_def example_externals_def)
  have c: "snd (hdbscan strict_externals [] 7) = Inl ValueError"
    by (simp add: strict_externals_def example_externals_def)
  note ok = empty_peaks_result [of example_externals example_params example_recording 7]
  note bad = empty_peaks_result [of strict_externals example_params example_recording 7
               _ _ ValueError 7 "[]"]
  from ok a b bad h f p c show ?thesis by blast
qed

section \<open>The process-wide random generator\<close>

lemma keeps_stage_of: "keeps_generator (stage_of r)"
  by (simp add: keeps_generator_def stage_of_def)

lemma keeps_stage_bind:
  assumes "keeps_generator m" and "\<And>x. keeps_generator (f x)"
  shows "keeps_generator (stage_bind m f)"
  using assms unfolding keeps_generator_def stage_bind_def
  by (auto split: prod.splits sum.splits) (metis fst_conv)+

lemma keeps_channel_step:
  assumes "generator_free ext"
  shows "keeps_generator (circus_channel_step ext peaks dat c st)"
  using assms unfolding keeps_generator_def generator_free_def circus_channel_step_def Let_def
  by (auto split: prod.splits sum.splits) (metis fst_conv)+

lemma keeps_cluster_loop:
  assumes "generator_free ext"
  shows "keeps_generator (circus_cluster_loop ext peaks dat cs st)"
proof (induction cs arbitrary: st)
  case Nil
  then show ?case by (simp add: keeps_generator_def)
next
  case (Cons c cs)
  have unroll: "circus_cluster_loop ext peaks dat (c # cs) st
          = stage_bind (circus_channel_step ext peaks dat c st)
              (\<lambda>st'. circus_cluster_loop ext peaks dat cs st')"
    by (rule ext) (simp add: stage_bind_def)
  show ?case
    unfolding unroll
    by (rule keeps_stage_bind [OF keeps_channel_step [OF assms]]) (rule Cons.IH)
qed

lemma keeps_noise:
  assumes "generator_free ext"
  shows "keeps_generator (resolve_noise_levels ext prm rec)"
  using assms
  by (auto simp: resolve_noise_levels_def keeps_generator_def generator_free_def stage_of_def
           split: option.splits)

lemma keeps_circus_templates:
  assumes "generator_free ext"
  shows "keeps_generator (circus_templates ext prm rec peaks pl)"
  unfolding circus_templates_def Let_def
  by (intro keeps_stage_bind keeps_stage_of keeps_noise [OF assms])
     (use assms in \<open>simp add: keeps_generator_def generator_free_def\<close>)

lemma keeps_rp_templates:
  assumes "generator_free ext"
  shows "keeps_generator (rp_templates ext prm rec peaks pl)"
  unfolding rp_templates_def Let_def
  by (intro keeps_stage_bind keeps_stage_of keeps_noise [OF assms])
     (use assms in \<open>simp add: keeps_generator_def generator_free_def\<close>)

text \<open>
  Claim C10. With hdbscan installed, \<^verbatim>\<open>CircusClustering.main_function\<close> overwrites the
  process-wide NumPy generator with the seeded state before any stage runs: its whole
  outcome, the generator it leaves behind included, is the same from any two prior
  states \<open>g\<close> and \<open>g'\<close>, and when no stage draws from the generator the caller finds
  exactly the state \<^verbatim>\<open>np.random.seed(random_seed)\<close> sets.
  \<^verbatim>\<open>RandomProjectionClustering.main_function\<close> writes the generator nowhere: when no
  stage draws from it, the caller finds the state it had before the call.
\<close>

theorem global_generator_effect:
  "(HAVE_HDBSCAN ext \<longrightarrow>
      circus_main ext prm rec peaks g = circus_main ext prm rec peaks g'
      \<and> (generator_free ext \<longrightarrow>
           fst (circus_main ext prm rec peaks g) = np_random_seed ext (random_seed prm)))
   \<and> (generator_free ext \<longrightarrow> fst (rp_main ext prm rec peaks g) = g)"
proof -
  have seeded: "circus_main ext prm rec peaks g = circus_main ext prm rec peaks g'"
    if "HAVE_HDBSCAN ext"
    using that by (simp add: circus_main_def)
  have circus: "fst (circus_main ext prm rec peaks g) = np_random_seed ext (random_seed prm)"
    if h: "HAVE_HDBSCAN ext" and f: "generator_free ext"
  proof -
    have "keeps_generator
            (stage_bind (extract_svd_features ext rec peaks) (\<lambda>all_pc_data.
               stage_bind (circus_clustering ext peaks all_pc_data) (\<lambda>st.
                 stage_bind (circus_templates ext prm rec peaks (fst st)) (\<lambda>pruned.
                   stage_of
                     (Inr (remove_duplicates_via_matching (near_duplicates ext)
                             (fst pruned) (snd pruned)))))))"
      unfolding circus_clustering_def
      by (intro keeps_stage_bind keeps_stage_of keeps_cluster_loop [OF f]
            keeps_circus_templates [OF f])
         (use f in \<open>simp add: keeps_generator_def generator_free_def\<close>)
    then show ?thesis using h by (simp add: circus_main_def Let_def keeps_generator_def)
  qed
  have rp: "fst (rp_main ext prm rec peaks g) = g" if f: "generator_free ext"
  proof (cases "HAVE_HDBSCAN ext")
    case False
    then show ?thesis by (simp add: rp_main_def)
  next
    case True
    have "keeps_generator
            (stage_bind
              (extract_projection_features ext rec peaks
                 (projections (RandomState_normal ext (random_seed prm)) rec prm))
              (\<lambda>hdbscan_data.
                 stage_bind (hdbscan ext hdbscan_data) (\<lambda>peak_labels.
                   stage_bind (rp_templates ext prm rec peaks peak_labels) (\<lambda>pruned.
                     stage_of
                       (Inr (remove_duplicates_via_matching (near_duplicates ext)
                               (fst pruned) (snd pruned)))))))"
      by (intro keeps_stage_bind keeps_stage_of keeps_rp_templates [OF f])
         (use f in \<open>simp_all add: keeps_generator_def generator_free_def\<close>)
    then show ?thesis using True by (simp add: rp_main_def keeps_generator_def)
  qed
  from seeded circus rp show ?thesis by blast
qed

text \<open>
  Witness for C10: seeded with 42, the learned-subspace path leaves the generator at the
  seeded state from the prior states 7 and 8 alike; the random-projection path leaves
  7 at 7.
\<close>

theorem global_generator_effect_witness:
  "HAVE_HDBSCAN example_externals \<and> generator_free example_externals
   \<and> circus_main example_externals example_params example_recording example_peaks 7
       = circus_main example_externals example_params example_recording example_peaks 8
   \<and> fst (circus_main example_externals example_params example_recording example_peaks 7)
       = np_random_seed example_externals 42
   \<and> fst (rp_main example_externals example_params example_recording example_peaks 7) = 7"
proof -
  have a: "HAVE_HDBSCAN example_externals" by (simp add: example_externals_def)
  have b: "generator_free example_externals"
    by (simp add: generator_free_def example_externals_def)
  have s: "random_seed example_params = 42" by (simp add: example_params_def)
  from global_generator_effect
         [of example_externals example_params example_recording example_peaks 7 8] a b
  show ?thesis unfolding s by blast
qed


section \<open>Repeated runs\<close>





lemma state_reading_generator_free: "generator_free state_reading_externals"
  by (simp add: generator_free_def state_reading_externals_def example_externals_def)




end
